theory Spec2Isabelle
  imports Main "HOL-Library.Multiset" "HOL-Library.Finite_Map" "HOL-Library.AList" "HOL-Library.Char_ord" "HOL-Library.List_Lexorder"
begin

section \<open>Strings as Go has them\<close>

text \<open>
  A Go string is a sequence of bytes; it is modelled as \<^typ>\<open>string\<close>, and a code point
  outside ASCII is the sequence of the bytes of its UTF-8 encoding. The helpers below are
  the functions of Go's package strings that the sources call.

  \<open>ToLower\<close> lowers the letters A to Z and keeps every other byte. Go lowers by Unicode
  code point, which agrees with the definition on every string of ASCII bytes; the
  comparison \<open>ToLower s = ''bearer''\<close> agrees on every string, since no code point outside
  ASCII lowers to one of the letters b, e, a, r.
\<close>

definition ToLower_byte :: "char \<Rightarrow> char" where
  "ToLower_byte c =
     (let n = (of_char c :: nat) in if 65 \<le> n \<and> n \<le> 90 then char_of (n + 32) else c)"

definition ToLower :: "string \<Rightarrow> string" where
  "ToLower s = map ToLower_byte s"

text \<open>
  The code points that \<open>unicode.IsSpace\<close> accepts, each as the bytes of its encoding: tab,
  line feed, vertical tab, form feed, carriage return and space; U+0085 and U+00A0;
  U+1680, U+2000 to U+200A, U+2028, U+2029, U+202F, U+205F and U+3000.
\<close>

definition white_space_runes :: "string list" where
  "white_space_runes =
     [[CHR 0x09], [CHR 0x0A], [CHR 0x0B], [CHR 0x0C], [CHR 0x0D], [CHR 0x20],
      [CHR 0xC2, CHR 0x85], [CHR 0xC2, CHR 0xA0],
      [CHR 0xE1, CHR 0x9A, CHR 0x80],
      [CHR 0xE2, CHR 0x80, CHR 0x80], [CHR 0xE2, CHR 0x80, CHR 0x81],
      [CHR 0xE2, CHR 0x80, CHR 0x82], [CHR 0xE2, CHR 0x80, CHR 0x83],
      [CHR 0xE2, CHR 0x80, CHR 0x84], [CHR 0xE2, CHR 0x80, CHR 0x85],
      [CHR 0xE2, CHR 0x80, CHR 0x86], [CHR 0xE2, CHR 0x80, CHR 0x87],
      [CHR 0xE2, CHR 0x80, CHR 0x88], [CHR 0xE2, CHR 0x80, CHR 0x89],
      [CHR 0xE2, CHR 0x80, CHR 0x8A],
      [CHR 0xE2, CHR 0x80, CHR 0xA8], [CHR 0xE2, CHR 0x80, CHR 0xA9],
      [CHR 0xE2, CHR 0x80, CHR 0xAF],
      [CHR 0xE2, CHR 0x81, CHR 0x9F],
      [CHR 0xE3, CHR 0x80, CHR 0x80]]"

text \<open>
  \<open>strings.TrimSpace\<close> removes the white space code points at both ends. It decodes one
  code point at a time, from the front and then from the back; a byte that starts no
  valid encoding decodes to U+FFFD, which is no white space, and a white space encoding
  at the end of a string is decoded as such whatever precedes it, since it begins with
  a start byte. So trimming removes, as long as there is one, an encoding of the list
  that the string begins with, and then one that it ends with.
\<close>

function trim_left_runes :: "string list \<Rightarrow> string \<Rightarrow> string" where
  "trim_left_runes rs s =
     (case find (\<lambda>e. e \<noteq> [] \<and> take (length e) s = e) rs of
        None \<Rightarrow> s
      | Some e \<Rightarrow> trim_left_runes rs (drop (length e) s))"
  by pat_completeness auto

termination trim_left_runes
proof (relation "measure (\<lambda>(rs, s). length s)")
  show "wf (measure (\<lambda>(rs :: string list, s :: string). length s))"
    by simp
next
  fix rs :: "string list" and s e :: string
  assume "find (\<lambda>e. e \<noteq> [] \<and> take (length e) s = e) rs = Some e"
  then have ne: "e \<noteq> []" and t: "take (length e) s = e"
    by (auto simp: find_Some_iff)
  from t have "length (take (length e) s) = length e"
    by simp
  then have "length e \<le> length s"
    by simp
  with ne show "((rs, drop (length e) s), (rs, s)) \<in> measure (\<lambda>(rs, s). length s)"
    by (cases e) auto
qed

definition TrimSpace :: "string \<Rightarrow> string" where
  "TrimSpace s =
     rev (trim_left_runes (map rev white_space_runes) (rev (trim_left_runes white_space_runes s)))"



text \<open>\<open>strings.SplitN(s, " ", 2)\<close>: the text before the first space and the text after
  it, or the whole string alone when it holds no space.\<close>

definition SplitN_space_2 :: "string \<Rightarrow> string list" where
  "SplitN_space_2 s =
     (if CHR '' '' \<in> set s
      then [takeWhile (\<lambda>c. c \<noteq> CHR '' '') s, tl (dropWhile (\<lambda>c. c \<noteq> CHR '' '') s)]
      else [s])"

section \<open>The config-api-key access provider (package configaccess)\<close>


definition DefaultAccessProviderName :: string where
  "DefaultAccessProviderName = ''config-inline''"

text \<open>\<open>sdkconfig.AccessProvider\<close>, with the fields the sources read. \<open>Config\<close> is a Go
  \<open>map[string]any\<close>; its values are left abstract.\<close>

record 'v AccessProvider =
  Name :: string
  Type :: string
  SDK :: string
  APIKeys :: "string list"
  Config :: "(string, 'v) fmap"

text \<open>An inbound request, as far as \<open>Authenticate\<close> reads it: the header values by
  canonical name, and the parsed query of the URL (\<open>None\<close> when \<open>r.URL\<close> is nil).
  \<open>Get\<close> returns the first value, or the empty string when there is none.\<close>

record http_request =
  Header :: "string \<rightharpoonup> string list"
  URL_Query :: "(string \<rightharpoonup> string list) option"

definition Values_Get :: "(string \<rightharpoonup> string list) \<Rightarrow> string \<Rightarrow> string" where
  "Values_Get vs k = (case vs k of None \<Rightarrow> '''' | Some [] \<Rightarrow> '''' | Some (v # _) \<Rightarrow> v)"

datatype access_error = ErrNotHandled | ErrNoCredentials | ErrInvalidCredential

record access_result =
  Provider :: string
  Principal :: string
  Metadata :: "(string \<times> string) list"

record provider =
  name :: string
  keys :: "string set"

definition newProvider :: "'v AccessProvider \<Rightarrow> provider" where
  "newProvider cfg =
     \<lparr> name = (if Name cfg = '''' then DefaultAccessProviderName else Name cfg),
       keys = set (filter (\<lambda>key. key \<noteq> '''') (APIKeys cfg)) \<rparr>"

definition Identifier :: "provider option \<Rightarrow> string" where
  "Identifier po =
     (case po of None \<Rightarrow> DefaultAccessProviderName
      | Some p \<Rightarrow> if name p = '''' then DefaultAccessProviderName else name p)"

definition extractBearerToken :: "string \<Rightarrow> string" where
  "extractBearerToken header =
     (if header = '''' then ''''
      else (case SplitN_space_2 header of
              [p0, p1] \<Rightarrow> if ToLower p0 \<noteq> ''bearer'' then header else TrimSpace p1
            | _ \<Rightarrow> header))"

text \<open>A query parameter of the request: empty when \<open>r.URL\<close> is nil.\<close>

definition query_value :: "http_request \<Rightarrow> string \<Rightarrow> string" where
  "query_value r k = (case URL_Query r of None \<Rightarrow> '''' | Some q \<Rightarrow> Values_Get q k)"

text \<open>The raw values whose emptiness decides \<open>ErrNoCredentials\<close>: the Authorization
  header is tested before its bearer token is extracted.\<close>

definition carriers :: "http_request \<Rightarrow> string list" where
  "carriers r =
     [Values_Get (Header r) ''Authorization'',
      Values_Get (Header r) ''X-Goog-Api-Key'',
      Values_Get (Header r) ''X-Api-Key'',
      query_value r ''key'',
      query_value r ''auth_token'']"

text \<open>The five candidates in the order the loop of \<open>Authenticate\<close> tries them, each
  with the name of its source.\<close>

definition candidates :: "http_request \<Rightarrow> (string \<times> string) list" where
  "candidates r =
     (let authHeader = Values_Get (Header r) ''Authorization'';
          authHeaderGoogle = Values_Get (Header r) ''X-Goog-Api-Key'';
          authHeaderAnthropic = Values_Get (Header r) ''X-Api-Key'';
          queryKey = query_value r ''key'';
          queryAuthToken = query_value r ''auth_token'';
          apiKey = extractBearerToken authHeader
      in [(apiKey, ''authorization''),
          (authHeaderGoogle, ''x-goog-api-key''),
          (authHeaderAnthropic, ''x-api-key''),
          (queryKey, ''query-key''),
          (queryAuthToken, ''query-auth-token'')])"

fun first_match :: "string set \<Rightarrow> (string \<times> string) list \<Rightarrow> (string \<times> string) option" where
  "first_match ks [] = None"
| "first_match ks ((v, src) # cs) =
     (if v = '''' then first_match ks cs
      else if v \<in> ks then Some (v, src)
      else first_match ks cs)"

definition Authenticate :: "provider option \<Rightarrow> http_request \<Rightarrow> access_error + access_result" where
  "Authenticate po r =
     (case po of
        None \<Rightarrow> Inl ErrNotHandled
      | Some p \<Rightarrow>
          if keys p = {} then Inl ErrNotHandled
          else if list_all (\<lambda>v. v = '''') (carriers r) then Inl ErrNoCredentials
          else (case first_match (keys p) (candidates r) of
                  Some (v, src) \<Rightarrow>
                    Inr \<lparr> Provider = Identifier po, Principal = v,
                          Metadata = [(''source'', src)] \<rparr>
                | None \<Rightarrow> Inl ErrInvalidCredential))"

text \<open>
  The spec's reading of the first carrier, for comparison with \<open>extractBearerToken\<close>: the
  token of an Authorization header of the form \<open>Bearer <token>\<close> (the scheme in any
  case, the token trimmed), and no key at all when the header has another form.
\<close>

definition spec_bearer_token :: "string \<Rightarrow> string option" where
  "spec_bearer_token header =
     (case SplitN_space_2 header of
        [p0, p1] \<Rightarrow> if ToLower p0 = ''bearer'' then Some (TrimSpace p1) else None
      | _ \<Rightarrow> None)"

text \<open>The keys a request carries under that reading, carrier by carrier; an absent
  carrier (the empty string) carries nothing.\<close>

definition spec_carried_keys :: "http_request \<Rightarrow> string list" where
  "spec_carried_keys r =
     (case spec_bearer_token (Values_Get (Header r) ''Authorization'') of
        None \<Rightarrow> [] | Some t \<Rightarrow> [t])
     @ filter (\<lambda>v. v \<noteq> '''') (tl (carriers r))"

text \<open>Requests and a provider configuration used as concrete inputs below.\<close>

definition cfg_two_keys :: "unit AccessProvider" where
  "cfg_two_keys =
     \<lparr> Name = ''team'', Type = ''config-api-key'', SDK = '''',
       APIKeys = [''k1'', '''', ''k2''], Config = fmempty \<rparr>"

definition req_raw_authorization :: http_request where
  "req_raw_authorization = \<lparr> Header = [''Authorization'' \<mapsto> [''k1'']], URL_Query = None \<rparr>"

definition req_bearer_and_query :: http_request where
  "req_bearer_and_query =
     \<lparr> Header = [''Authorization'' \<mapsto> [''Bearer  k3 '']],
       URL_Query = Some [''key'' \<mapsto> [''k2'']] \<rparr>"

definition req_no_credentials :: http_request where
  "req_no_credentials = \<lparr> Header = Map.empty, URL_Query = Some Map.empty \<rparr>"

definition req_wrong_key :: http_request where
  "req_wrong_key = \<lparr> Header = [''X-Api-Key'' \<mapsto> [''nope'']], URL_Query = None \<rparr>"

definition req_bearer_nbsp :: http_request where
  "req_bearer_nbsp =
     \<lparr> Header = [''Authorization'' \<mapsto> [''Bearer k1'' @ [CHR 0xC2, CHR 0xA0]]],
       URL_Query = None \<rparr>"

definition req_only_header :: "string \<Rightarrow> string \<Rightarrow> http_request" where
  "req_only_header h v = \<lparr> Header = [h \<mapsto> [v]], URL_Query = None \<rparr>"

definition req_only_query :: "string \<Rightarrow> string \<Rightarrow> http_request" where
  "req_only_query k v = \<lparr> Header = Map.empty, URL_Query = Some [k \<mapsto> [v]] \<rparr>"

section \<open>Reconciling access providers on reload (package access)\<close>























text \<open>The map of the existing providers by identifier: a later provider replaces an
  earlier one of the same identifier, and nil entries are skipped. \<open>ident\<close> is the
  method \<open>Identifier\<close> of the provider objects.\<close>

definition existing_map :: "('p \<Rightarrow> string) \<Rightarrow> 'p option list \<Rightarrow> (string \<times> 'p) list" where
  "existing_map ident existing =
     fold (\<lambda>po m. case po of None \<Rightarrow> m | Some provider \<Rightarrow> AList.update (ident provider) provider m)
          existing []"




















section \<open>Rewriting the model name in responses (package amp)\<close>

text \<open>
  \<open>gjson\<close> and \<open>sjson\<close> are third-party modules. The rewriter uses three things of them,
  which are parameters here: \<open>GetBytes l data path\<close> is the result of
  \<open>gjson.GetBytes(data, path)\<close>, \<open>None\<close> when \<open>Exists()\<close> is false; \<open>SetBytes l data path v\<close>
  is what \<open>sjson.SetBytes(data, path, v)\<close> returns for a string \<open>v\<close> (the code drops the
  error); \<open>StringResult l v\<close> is the result that stands for the JSON string \<open>v\<close>.
\<close>

record 'r json_lib =
  GetBytes :: "string \<Rightarrow> string \<Rightarrow> 'r option"
  SetBytes :: "string \<Rightarrow> string \<Rightarrow> string \<Rightarrow> string"
  StringResult :: "string \<Rightarrow> 'r"

definition modelFieldPaths :: "string list" where
  "modelFieldPaths = [''model'', ''modelVersion'', ''response.modelVersion'', ''message.model'']"

definition rewrite_path :: "'r json_lib \<Rightarrow> string \<Rightarrow> string \<Rightarrow> string \<Rightarrow> string" where
  "rewrite_path l originalModel path data =
     (if GetBytes l data path \<noteq> None then SetBytes l data path originalModel else data)"

definition rewriteModelInResponse :: "'r json_lib \<Rightarrow> string \<Rightarrow> string \<Rightarrow> string" where
  "rewriteModelInResponse l originalModel data =
     (if originalModel = '''' then data
      else fold (rewrite_path l originalModel) modelFieldPaths data)"

text \<open>\<open>bytes.Split\<close> and \<open>bytes.Join\<close> with a separator of one byte, \<open>bytes.HasPrefix\<close> and
  \<open>bytes.TrimPrefix\<close>. Splitting the empty slice gives one empty piece.\<close>

fun Split :: "char \<Rightarrow> string \<Rightarrow> string list" where
  "Split sep [] = [[]]"
| "Split sep (c # cs) =
     (if c = sep then [] # Split sep cs
      else (case Split sep cs of [] \<Rightarrow> [[c]] | piece # pieces \<Rightarrow> (c # piece) # pieces))"

fun Join :: "char \<Rightarrow> string list \<Rightarrow> string" where
  "Join sep [] = []"
| "Join sep [piece] = piece"
| "Join sep (piece # pieces) = piece @ sep # Join sep pieces"

definition HasPrefix :: "string \<Rightarrow> string \<Rightarrow> bool" where
  "HasPrefix s p = (take (length p) s = p)"

definition TrimPrefix :: "string \<Rightarrow> string \<Rightarrow> string" where
  "TrimPrefix s p = (if HasPrefix s p then drop (length p) s else s)"

text \<open>The body of the loop of \<open>rewriteStreamChunk\<close>, for one line of the chunk.\<close>

definition rewriteStreamLine :: "'r json_lib \<Rightarrow> string \<Rightarrow> string \<Rightarrow> string" where
  "rewriteStreamLine l originalModel line =
     (if HasPrefix line ''data: ''
      then (let jsonData = TrimPrefix line ''data: '' in
            if length jsonData > 0 \<and> hd jsonData = CHR ''{''
            then ''data: '' @ rewriteModelInResponse l originalModel jsonData
            else line)
      else line)"

definition rewriteStreamChunk :: "'r json_lib \<Rightarrow> string \<Rightarrow> string \<Rightarrow> string" where
  "rewriteStreamChunk l originalModel chunk =
     (if originalModel = '''' then chunk
      else Join CHR ''\<newline>''
             (map (rewriteStreamLine l originalModel) (Split CHR ''\<newline>'' chunk)))"

text \<open>
  The writer itself. \<open>body\<close> is the buffer, \<open>written\<close> the slices handed to the wrapped
  \<open>gin.ResponseWriter\<close>, in order. \<open>Write\<close> reads the Content-Type header of the wrapped
  writer on the first write; the header's value is an argument. The counts and errors
  that the wrapped writer returns are not modelled.
\<close>

record ResponseRewriter =
  body :: string
  originalModel :: string
  isStreaming :: bool
  written :: "string list"

definition NewResponseRewriter :: "string \<Rightarrow> ResponseRewriter" where
  "NewResponseRewriter m = \<lparr> body = [], originalModel = m, isStreaming = False, written = [] \<rparr>"

fun Contains :: "string \<Rightarrow> string \<Rightarrow> bool" where
  "Contains [] sub = (sub = [])"
| "Contains (c # s) sub = (HasPrefix (c # s) sub \<or> Contains s sub)"

definition Write :: "'r json_lib \<Rightarrow> string \<Rightarrow> string \<Rightarrow> ResponseRewriter \<Rightarrow> ResponseRewriter" where
  "Write l contentType data rw =
     (let rw1 = (if length (body rw) = 0 \<and> \<not> isStreaming rw
                 then rw\<lparr> isStreaming := Contains contentType ''text/event-stream'' \<or>
                                           Contains contentType ''stream'' \<rparr>
                 else rw)
      in if isStreaming rw1
         then rw1\<lparr> written := written rw1 @ [rewriteStreamChunk l (originalModel rw1) data] \<rparr>
         else rw1\<lparr> body := body rw1 @ data \<rparr>)"

definition Flush :: "'r json_lib \<Rightarrow> ResponseRewriter \<Rightarrow> ResponseRewriter" where
  "Flush l rw =
     (if isStreaming rw then rw
      else if length (body rw) > 0
      then rw\<lparr> written := written rw @ [rewriteModelInResponse l (originalModel rw) (body rw)] \<rparr>
      else rw)"

text \<open>
  What the results below ask of the two modules, for the value \<open>v\<close> that is written:
  after a path that exists has been set, reading it gives the string \<open>v\<close>, and the
  three other paths of \<open>modelFieldPaths\<close> read as before.
\<close>

definition lawful_json_lib :: "'r json_lib \<Rightarrow> string \<Rightarrow> bool" where
  "lawful_json_lib l v \<longleftrightarrow>
     (\<forall>data p. p \<in> set modelFieldPaths \<and> GetBytes l data p \<noteq> None \<longrightarrow>
        GetBytes l (SetBytes l data p v) p = Some (StringResult l v)) \<and>
     (\<forall>data p q. p \<in> set modelFieldPaths \<and> q \<in> set modelFieldPaths \<and> p \<noteq> q \<and>
        GetBytes l data p \<noteq> None \<longrightarrow>
        GetBytes l (SetBytes l data p v) q = GetBytes l data q)"

text \<open>A small stand-in for the two modules: flat JSON objects whose members are
  strings, written without blanks and without escapes.\<close>

definition dquote :: char where
  "dquote = CHR 0x22"

definition plain :: "string \<Rightarrow> bool" where
  "plain s \<longleftrightarrow> dquote \<notin> set s \<and> CHR '','' \<notin> set s"

definition enc_member :: "string \<times> string \<Rightarrow> string" where
  "enc_member kv = dquote # fst kv @ dquote # CHR '':'' # dquote # snd kv @ [dquote]"

definition enc_object :: "(string \<times> string) list \<Rightarrow> string" where
  "enc_object kvs = CHR ''{'' # Join CHR '','' (map enc_member kvs) @ ''}''"

definition dec_member :: "string \<Rightarrow> (string \<times> string) option" where
  "dec_member s =
     (case s of
        [] \<Rightarrow> None
      | c # r \<Rightarrow>
          if c \<noteq> dquote then None
          else (let k = takeWhile (\<lambda>x. x \<noteq> dquote) r;
                    r1 = dropWhile (\<lambda>x. x \<noteq> dquote) r
                in if take 3 r1 = [dquote, CHR '':'', dquote]
                   then (let r2 = drop 3 r1 in
                         if r2 \<noteq> [] \<and> last r2 = dquote \<and> dquote \<notin> set (butlast r2)
                         then Some (k, butlast r2)
                         else None)
                   else None))"

definition dec_object :: "string \<Rightarrow> (string \<times> string) list option" where
  "dec_object s =
     (case s of
        [] \<Rightarrow> None
      | c # r \<Rightarrow>
          if c = CHR ''{'' \<and> r \<noteq> [] \<and> last r = CHR ''}''
          then (let inner = butlast r in
                if inner = [] then Some []
                else those (map dec_member (Split CHR '','' inner)))
          else None)"

definition flat_lib :: "string json_lib" where
  "flat_lib =
     \<lparr> GetBytes = (\<lambda>data path. case dec_object data of None \<Rightarrow> None
                                 | Some kvs \<Rightarrow> map_of kvs path),
       SetBytes = (\<lambda>data path v. case dec_object data of None \<Rightarrow> data
                                   | Some kvs \<Rightarrow> enc_object (AList.update path v kvs)),
       StringResult = (\<lambda>v. v) \<rparr>"

text \<open>A response body, the model the client asked for, and a chunk of an event stream,
  used as concrete inputs below.\<close>

definition demo_body :: string where
  \<open>demo_body = ''{"model":"gemini-2.5-pro","id":"7"}''\<close>

definition demo_model :: string where
  "demo_model = ''gemini-2.5-pro(8192)''"

definition demo_lines :: "string list" where
  \<open>demo_lines = [''data: {"model":"gemini-2.5-pro","id":"7"}'', '''', ''data: [DONE]'', '''']\<close>

section \<open>The composite translator from OpenAI Responses to Antigravity\<close>

text \<open>
  A Go byte slice is \<open>None\<close> when it is nil and \<open>Some\<close> of its bytes otherwise.
  \<open>bytes.Clone\<close> returns nil for nil and a fresh slice of the same bytes otherwise. The
  two translators that \<open>ConvertOpenAIResponsesRequestToAntigravity\<close> calls live in other
  packages of the repository; they are parameters here.
\<close>

type_synonym bytes = "string option"

type_synonym request_translator = "string \<Rightarrow> bytes \<Rightarrow> bool \<Rightarrow> bytes"

definition bytes_Clone :: "bytes \<Rightarrow> bytes" where
  "bytes_Clone b = (case b of None \<Rightarrow> None | Some s \<Rightarrow> Some ([] @ s))"

definition ConvertOpenAIResponsesRequestToAntigravity ::
  "request_translator \<Rightarrow> request_translator \<Rightarrow> string \<Rightarrow> bytes \<Rightarrow> bool \<Rightarrow> bytes" where
  "ConvertOpenAIResponsesRequestToAntigravity ConvertOpenAIResponsesRequestToGemini
       ConvertGeminiRequestToAntigravity modelName inputRawJSON stream =
     (let rawJSON = bytes_Clone inputRawJSON;
          rawJSON = ConvertOpenAIResponsesRequestToGemini modelName rawJSON stream
      in ConvertGeminiRequestToAntigravity modelName rawJSON stream)"

section \<open>Thinking budgets and effort levels (package util)\<close>

text \<open>
  The table of level names and their budgets, as the comment above \<open>thinkingLevelSamples\<close>
  and the rows of \<open>TestThinkingEffortToBudget\<close> give it.
\<close>

definition level_budget :: "string \<Rightarrow> int option" where
  "level_budget = map_of
     [(''auto'', -1), (''none'', 0), (''minimal'', 512), (''low'', 1024), (''medium'', 8192),
      (''high'', 24576), (''xhigh'', 32768)]"

definition budget_of :: "string \<Rightarrow> int" where
  "budget_of l = (case level_budget l of Some v \<Rightarrow> v | None \<Rightarrow> 0)"


text \<open>
  Modelled from the spec: \<open>util.ThinkingBudgetToEffort\<close> is not among the sources; its test
  \<open>TestThinkingBudgetToEffort\<close> is. The level table of the model is the parameter
  \<open>levels\<close>, in the order of the table. The definition follows the words of the spec: a
  negative budget gives \<open>auto\<close> when it is \<open>-1\<close> and nothing otherwise, budget 0 gives the
  first level, a positive budget the first level whose budget is at least the input, and
  the right-most level when there is none. It departs from them in one point, which the
  row \<open>low-min\<close> of the test forces: the level \<open>minimal\<close> is not chosen for a positive
  budget. A model without levels has no level to give.
\<close>

definition ThinkingBudgetToEffort :: "string list \<Rightarrow> int \<Rightarrow> string \<times> bool" where
  "ThinkingBudgetToEffort levels budget =
     (if budget = -1 then (''auto'', True)
      else if budget < -1 then ('''', False)
      else if levels = [] then ('''', False)
      else if budget = 0 then (hd levels, True)
      else (case find (\<lambda>l. l \<noteq> ''minimal'' \<and> level_budget l \<noteq> None \<and> budget \<le> budget_of l)
                   levels of
              Some l \<Rightarrow> (l, True)
            | None \<Rightarrow> (last levels, True)))"

text \<open>
  The tables for which the results below speak: every level has a budget, the budgets
  ascend along the table, and \<open>low\<close>, \<open>medium\<close> and \<open>high\<close> are levels of it. The tables
  of the two models of the test are of this kind.
\<close>

definition level_table :: "string list \<Rightarrow> bool" where
  "level_table levels \<longleftrightarrow>
     list_all (\<lambda>l. level_budget l \<noteq> None) levels \<and>
     sorted_wrt (\<lambda>l l'. budget_of l < budget_of l') levels \<and>
     list_all (\<lambda>l. l \<in> set levels) [''low'', ''medium'', ''high'']"

text \<open>
  The scale of the comment above \<open>thinkingNumericSamples\<close> for a positive budget:
  \<open>1..1024 -> low\<close>, \<open>1025..8192 -> medium\<close>, \<open>8193..24576 -> high\<close>,
  \<open>>24576 -> model highest level\<close>.
\<close>

definition comment_scale :: "string list \<Rightarrow> int \<Rightarrow> string" where
  "comment_scale levels b =
     (if b \<le> 1024 then ''low'' else if b \<le> 8192 then ''medium''
      else if b \<le> 24576 then ''high'' else last levels)"


text \<open>
  The level tables of the two models of \<open>TestThinkingBudgetToEffort\<close>. The registry that
  holds them is not among the sources; the rows of the test fix the first level of
  \<open>gpt-5\<close>, which is \<open>minimal\<close> by row \<open>zero-none\<close>, its last level, which is \<open>high\<close> by row
  \<open>over-max-clamps-to-highest\<close>, and the last level of \<open>gpt-5.2\<close>, which is \<open>xhigh\<close>.
\<close>

definition gpt5_levels :: "string list" where
  "gpt5_levels = [''minimal'', ''low'', ''medium'', ''high'']"

definition gpt52_levels :: "string list" where
  "gpt52_levels = [''none'', ''low'', ''medium'', ''high'', ''xhigh'']"

text \<open>The rows of \<open>TestThinkingBudgetToEffort\<close>: level table, budget, wanted level, wanted ok.\<close>

definition TestThinkingBudgetToEffort_cases :: "(string list \<times> int \<times> string \<times> bool) list" where
  "TestThinkingBudgetToEffort_cases =
     [(gpt5_levels, -1, ''auto'', True),
      (gpt5_levels, 0, ''minimal'', True),
      (gpt5_levels, 1, ''low'', True),
      (gpt5_levels, 1024, ''low'', True),
      (gpt5_levels, 1025, ''medium'', True),
      (gpt5_levels, 8192, ''medium'', True),
      (gpt5_levels, 8193, ''high'', True),
      (gpt5_levels, 24576, ''high'', True),
      (gpt5_levels, 64000, ''high'', True),
      (gpt52_levels, 64000, ''xhigh'', True),
      (gpt5_levels, -5, '''', False)]"

section \<open>Effort names on the way to a level dialect (package executor)\<close>

text \<open>The thinking variant of a model descriptor: none, a budget range, or a level table.\<close>

datatype thinking_support =
    ThinkingNone
  | ThinkingBudget int int
  | ThinkingLevels "string list"

datatype thinking_error = thinking_invalid

text \<open>
  Modelled from the spec: \<open>executor.NormalizeThinkingConfig\<close> and
  \<open>executor.ValidateThinkingConfig\<close> are not among the sources. The descriptor is \<open>None\<close>
  for a model the registry does not know. For an unknown model the effort is passed
  through verbatim when \<open>allowCompat\<close> is set and stripped otherwise; a descriptor that
  declares no thinking, or a budget range, has the field stripped; for a level table the
  effort is lowercased and must be in the table, else the request fails with
  \<open>thinking_invalid\<close>. The result is the \<open>reasoning_effort\<close> field of the upstream payload.
\<close>

definition project_effort ::
  "bool \<Rightarrow> thinking_support option \<Rightarrow> string \<Rightarrow> thinking_error + string option" where
  "project_effort allowCompat descriptor effort =
     (case descriptor of
        None \<Rightarrow> if allowCompat then Inr (Some effort) else Inr None
      | Some ThinkingNone \<Rightarrow> Inr None
      | Some (ThinkingBudget lo hi) \<Rightarrow> Inr None
      | Some (ThinkingLevels levels) \<Rightarrow>
          (let e = ToLower effort in
           if e \<in> set levels then Inr (Some e) else Inl thinking_invalid))"

section \<open>Gemini 3 thinking levels (package util)\<close>

text \<open>
  Modelled from the spec: \<open>util.IsGemini3Model\<close>, \<open>util.IsGemini3ProModel\<close> and
  \<open>util.IsGemini3FlashModel\<close> are not among the sources; their tests are. A model is read
  in lower case with underscores as hyphens, and belongs to a family by the prefix of
  its name, which is what the rows of the three tests show.
\<close>

definition gemini3_name :: "string \<Rightarrow> string" where
  "gemini3_name model = map (\<lambda>c. if c = CHR ''_'' then CHR ''-'' else c) (ToLower model)"

definition IsGemini3Model :: "string \<Rightarrow> bool" where
  "IsGemini3Model model = HasPrefix (gemini3_name model) ''gemini-3-''"

definition IsGemini3ProModel :: "string \<Rightarrow> bool" where
  "IsGemini3ProModel model = HasPrefix (gemini3_name model) ''gemini-3-pro''"

definition IsGemini3FlashModel :: "string \<Rightarrow> bool" where
  "IsGemini3FlashModel model = HasPrefix (gemini3_name model) ''gemini-3-flash''"

text \<open>The levels the two families accept, as the spec and the comments of the tests give them.\<close>

definition Gemini3ProThinkingLevels :: "string list" where
  "Gemini3ProThinkingLevels = [''low'', ''high'']"

definition Gemini3FlashThinkingLevels :: "string list" where
  "Gemini3FlashThinkingLevels = [''minimal'', ''low'', ''medium'', ''high'']"

text \<open>
  Modelled from the spec: \<open>util.ValidateGemini3ThinkingLevel\<close> is not among the sources. A
  level is accepted, in lower case, when it is one of the levels of the model's family;
  a model of neither family accepts none.
\<close>

definition ValidateGemini3ThinkingLevel :: "string \<Rightarrow> string \<Rightarrow> string \<times> bool" where
  "ValidateGemini3ThinkingLevel model level =
     (let lower = ToLower level;
          validLevels = (if IsGemini3ProModel model then Gemini3ProThinkingLevels
                         else if IsGemini3FlashModel model then Gemini3FlashThinkingLevels
                         else [])
      in if lower \<in> set validLevels then (lower, True) else ('''', False))"

text \<open>
  Modelled from the spec: \<open>util.ThinkingBudgetToGemini3Level\<close> is not among the sources.
  The bounds between the levels are the budgets 512, 1024 and 8192 of the level table;
  the rows of \<open>TestThinkingBudgetToGemini3Level\<close> lie on both sides of each of them. The
  dynamic budget \<open>-1\<close> is the level \<open>high\<close>. Gemini 3 Pro, which has neither \<open>minimal\<close>
  nor \<open>medium\<close>, takes \<open>low\<close> in their place.
\<close>

definition ThinkingBudgetToGemini3Level :: "string \<Rightarrow> int \<Rightarrow> string \<times> bool" where
  "ThinkingBudgetToGemini3Level model budget =
     (if IsGemini3ProModel model then
        (if budget = -1 then (''high'', True)
         else if budget \<le> 8192 then (''low'', True)
         else (''high'', True))
      else if IsGemini3FlashModel model then
        (if budget = -1 then (''high'', True)
         else if budget \<le> 512 then (''minimal'', True)
         else if budget \<le> 1024 then (''low'', True)
         else if budget \<le> 8192 then (''medium'', True)
         else (''high'', True))
      else ('''', False))"

text \<open>
  The object \<open>generationConfig.thinkingConfig\<close> of a Gemini request body: each of its three
  fields is present or absent.
\<close>

record thinkingConfig =
  thinkingBudget :: "int option"
  thinkingLevel :: "string option"
  includeThoughts :: "bool option"

text \<open>
  Modelled from the spec: \<open>util.NormalizeGeminiThinkingBudget\<close> is not among the sources.
  A body without \<open>thinkingBudget\<close> is left alone. For a Gemini 3 model the budget is
  removed and its level written to \<open>thinkingLevel\<close>; for any other model the budget stays,
  clamped to the range of the model by \<open>NormalizeThinkingBudget\<close>, which reads the registry
  and is a parameter here.
\<close>

definition NormalizeGeminiThinkingBudget ::
  "(string \<Rightarrow> int \<Rightarrow> int) \<Rightarrow> string \<Rightarrow> thinkingConfig \<Rightarrow> thinkingConfig" where
  "NormalizeGeminiThinkingBudget NormalizeThinkingBudget model cfg =
     (case thinkingBudget cfg of
        None \<Rightarrow> cfg
      | Some budget \<Rightarrow>
          if IsGemini3Model model then
            (case ThinkingBudgetToGemini3Level model budget of
               (level, True) \<Rightarrow> cfg \<lparr> thinkingLevel := Some level, thinkingBudget := None \<rparr>
             | (level, False) \<Rightarrow> cfg \<lparr> thinkingBudget := None \<rparr>)
          else cfg \<lparr> thinkingBudget := Some (NormalizeThinkingBudget model budget) \<rparr>)"

text \<open>The rows of the tests of the three family predicates.\<close>

definition TestIsGemini3Model_cases :: "(string \<times> bool) list" where
  "TestIsGemini3Model_cases =
     [(''gemini-3-pro-preview'', True), (''gemini-3-flash-preview'', True),
      (''gemini_3_pro_preview'', True), (''gemini-3-pro'', True), (''gemini-3-flash'', True),
      (''GEMINI-3-PRO-PREVIEW'', True), (''gemini-2.5-pro'', False),
      (''gemini-2.5-flash'', False), (''gpt-5'', False), (''claude-sonnet-4-5'', False),
      ('''', False)]"

definition TestIsGemini3ProModel_cases :: "(string \<times> bool) list" where
  "TestIsGemini3ProModel_cases =
     [(''gemini-3-pro-preview'', True), (''gemini_3_pro_preview'', True),
      (''gemini-3-pro'', True), (''GEMINI-3-PRO-PREVIEW'', True),
      (''gemini-3-flash-preview'', False), (''gemini-3-flash'', False),
      (''gemini-2.5-pro'', False), ('''', False)]"

definition TestIsGemini3FlashModel_cases :: "(string \<times> bool) list" where
  "TestIsGemini3FlashModel_cases =
     [(''gemini-3-flash-preview'', True), (''gemini_3_flash_preview'', True),
      (''gemini-3-flash'', True), (''GEMINI-3-FLASH-PREVIEW'', True),
      (''gemini-3-pro-preview'', False), (''gemini-3-pro'', False),
      (''gemini-2.5-flash'', False), ('''', False)]"

text \<open>The rows of \<open>TestValidateGemini3ThinkingLevel\<close>: model, level, wanted ok, wanted value.\<close>

definition TestValidateGemini3ThinkingLevel_cases :: "(string \<times> string \<times> bool \<times> string) list" where
  "TestValidateGemini3ThinkingLevel_cases =
     [(''gemini-3-pro-preview'', ''low'', True, ''low''),
      (''gemini-3-pro-preview'', ''high'', True, ''high''),
      (''gemini-3-pro-preview'', ''minimal'', False, ''''),
      (''gemini-3-pro-preview'', ''medium'', False, ''''),
      (''gemini-3-flash-preview'', ''minimal'', True, ''minimal''),
      (''gemini-3-flash-preview'', ''low'', True, ''low''),
      (''gemini-3-flash-preview'', ''medium'', True, ''medium''),
      (''gemini-3-flash-preview'', ''high'', True, ''high''),
      (''gemini-3-flash-preview'', ''LOW'', True, ''low''),
      (''gemini-3-flash-preview'', ''High'', True, ''high''),
      (''gemini-3-pro-preview'', ''HIGH'', True, ''high''),
      (''gemini-3-flash-preview'', ''xhigh'', False, ''''),
      (''gemini-3-flash-preview'', ''auto'', False, ''''),
      (''gemini-3-flash-preview'', '''', False, ''''),
      (''gemini-2.5-pro'', ''high'', False, ''''),
      (''gpt-5'', ''high'', False, '''')]"

text \<open>The rows of \<open>TestThinkingBudgetToGemini3Level\<close>: model, budget, wanted ok, wanted value.\<close>

definition TestThinkingBudgetToGemini3Level_cases :: "(string \<times> int \<times> bool \<times> string) list" where
  "TestThinkingBudgetToGemini3Level_cases =
     [(''gemini-3-pro-preview'', -1, True, ''high''),
      (''gemini-3-pro-preview'', 0, True, ''low''),
      (''gemini-3-pro-preview'', 1000, True, ''low''),
      (''gemini-3-pro-preview'', 8000, True, ''low''),
      (''gemini-3-pro-preview'', 20000, True, ''high''),
      (''gemini-3-pro-preview'', 50000, True, ''high''),
      (''gemini-3-flash-preview'', -1, True, ''high''),
      (''gemini-3-flash-preview'', 0, True, ''minimal''),
      (''gemini-3-flash-preview'', 500, True, ''minimal''),
      (''gemini-3-flash-preview'', 1000, True, ''low''),
      (''gemini-3-flash-preview'', 8000, True, ''medium''),
      (''gemini-3-flash-preview'', 20000, True, ''high''),
      (''gemini-3-flash-preview'', 50000, True, ''high''),
      (''gemini-2.5-pro'', 8000, False, ''''),
      (''gpt-5'', 8000, False, '''')]"

text \<open>
  The rows of \<open>TestNormalizeGeminiThinkingBudget_Gemini3Conversion\<close>: model, budget of the
  input body, wanted level, and whether the budget is wanted instead of a level.
\<close>

definition TestNormalizeGeminiThinkingBudget_cases :: "(string \<times> int \<times> string \<times> bool) list" where
  "TestNormalizeGeminiThinkingBudget_cases =
     [(''gemini-3-flash-preview'', 8000, ''medium'', False),
      (''gemini-3-pro-preview'', 20000, ''high'', False),
      (''gemini-2.5-pro'', 8000, '''', True)]"

definition budget_body :: "int \<Rightarrow> thinkingConfig" where
  "budget_body b = \<lparr> thinkingBudget = Some b, thinkingLevel = None, includeThoughts = None \<rparr>"

text \<open>What the body of the loop of that test checks on a result.\<close>

definition normalize_row_passes :: "thinkingConfig \<Rightarrow> string \<Rightarrow> bool \<Rightarrow> bool" where
  "normalize_row_passes res wantLevel wantBudget =
     (if wantBudget then thinkingBudget res \<noteq> None \<and> thinkingLevel res = None
      else thinkingLevel res = Some wantLevel \<and> thinkingBudget res = None)"

section \<open>Results on the config-api-key provider\<close>

lemma first_match_None_iff:
  "first_match ks cs = None \<longleftrightarrow> (\<nexists>v. v \<in> fst ` set cs \<and> v \<noteq> '''' \<and> v \<in> ks)"
  by (induction ks cs rule: first_match.induct) auto

lemma first_match_Some:
  "first_match ks cs = Some (v, src) \<Longrightarrow> (v, src) \<in> set cs \<and> v \<noteq> '''' \<and> v \<in> ks"
  by (induction ks cs rule: first_match.induct) (auto split: if_splits)


lemma SplitN_space_2_no_space: "CHR '' '' \<notin> set s \<Longrightarrow> SplitN_space_2 s = [s]"
  by (simp add: SplitN_space_2_def)

lemma SplitN_space_2_space:
  "CHR '' '' \<in> set s \<Longrightarrow>
   SplitN_space_2 s = [takeWhile (\<lambda>c. c \<noteq> CHR '' '') s, tl (dropWhile (\<lambda>c. c \<noteq> CHR '' '') s)]"
  by (simp add: SplitN_space_2_def)

lemma extractBearerToken_empty: "extractBearerToken '''' = ''''"
  by (simp add: extractBearerToken_def)

lemma extractBearerToken_not_bearer:
  assumes "CHR '' '' \<notin> set h \<or> ToLower (takeWhile (\<lambda>c. c \<noteq> CHR '' '') h) \<noteq> ''bearer''"
  shows "extractBearerToken h = h"
proof (cases "CHR '' '' \<in> set h")
  case True
  with assms show ?thesis
    by (simp add: extractBearerToken_def SplitN_space_2_space)
next
  case False
  then show ?thesis
    by (simp add: extractBearerToken_def SplitN_space_2_no_space)
qed

lemma Authenticate_Some:
  "Authenticate (Some p) r =
     (if keys p = {} then Inl ErrNotHandled
      else if list_all (\<lambda>v. v = '''') (carriers r) then Inl ErrNoCredentials
      else (case first_match (keys p) (candidates r) of
              Some (v, src) \<Rightarrow>
                Inr \<lparr> Provider = Identifier (Some p), Principal = v,
                      Metadata = [(''source'', src)] \<rparr>
            | None \<Rightarrow> Inl ErrInvalidCredential))"
  by (simp add: Authenticate_def)

lemma candidates_empty_if_carriers_empty:
  assumes "list_all (\<lambda>v. v = '''') (carriers r)"
  shows "\<forall>v \<in> fst ` set (candidates r). v = ''''"
  using assms by (simp add: carriers_def candidates_def extractBearerToken_empty)

lemma keys_newProvider: "keys (newProvider cfg) = {k \<in> set (APIKeys cfg). k \<noteq> ''''}"
  by (auto simp: newProvider_def)

text \<open>
  Claim C10. When the Authorization header is not of the form \<open>Bearer <token>\<close> (it holds
  no space, or its first word is not \<open>bearer\<close> in any case), \<open>extractBearerToken\<close> returns
  the whole header value, and that value is the first candidate of \<open>Authenticate\<close>: a bare
  key sent in the Authorization header authenticates when it is a key of the provider,
  with the header value as principal and \<open>authorization\<close> as source.
\<close>

theorem raw_authorization_header_is_candidate:
  assumes "h = Values_Get (Header r) ''Authorization''"
    and "CHR '' '' \<notin> set h \<or> ToLower (takeWhile (\<lambda>c. c \<noteq> CHR '' '') h) \<noteq> ''bearer''"
  shows "extractBearerToken h = h \<and>
         (h \<noteq> '''' \<and> h \<in> keys p \<longrightarrow>
            Authenticate (Some p) r =
              Inr \<lparr> Provider = Identifier (Some p), Principal = h,
                    Metadata = [(''source'', ''authorization'')] \<rparr>)"
proof -
  have eq: "extractBearerToken h = h"
    using assms(2) by (rule extractBearerToken_not_bearer)
  have "Authenticate (Some p) r =
          Inr \<lparr> Provider = Identifier (Some p), Principal = h,
                Metadata = [(''source'', ''authorization'')] \<rparr>"
    if "h \<noteq> ''''" "h \<in> keys p"
  proof -
    have "keys p \<noteq> {}" using that by auto
    moreover have "\<not> list_all (\<lambda>v. v = '''') (carriers r)"
      using that(1) assms(1) by (simp add: carriers_def)
    moreover have "first_match (keys p) (candidates r) = Some (h, ''authorization'')"
      using that eq assms(1) by (simp add: candidates_def)
    ultimately show ?thesis by (simp add: Authenticate_Some)
  qed
  with eq show ?thesis by simp
qed

theorem raw_authorization_header_witness:
  "extractBearerToken ''k1'' = ''k1'' \<and>
   Authenticate (Some (newProvider cfg_two_keys)) req_raw_authorization =
     Inr \<lparr> Provider = ''team'', Principal = ''k1'', Metadata = [(''source'', ''authorization'')] \<rparr>"
proof -
  have h: "''k1'' = Values_Get (Header req_raw_authorization) ''Authorization''"
    by (simp add: req_raw_authorization_def Values_Get_def)
  have nb: "CHR '' '' \<notin> set ''k1'' \<or> ToLower (takeWhile (\<lambda>c. c \<noteq> CHR '' '') ''k1'') \<noteq> ''bearer''"
    by simp
  have k: "''k1'' \<noteq> '''' \<and> ''k1'' \<in> keys (newProvider cfg_two_keys)"
    by (simp add: newProvider_def cfg_two_keys_def)
  have i: "Identifier (Some (newProvider cfg_two_keys)) = ''team''"
    by (simp add: Identifier_def newProvider_def cfg_two_keys_def)
  from raw_authorization_header_is_candidate [OF h nb, of "newProvider cfg_two_keys"] k i
  show ?thesis by simp
qed

text \<open>
  Claim C6, as stated, fails: a request whose only credential is the Authorization header
  \<open>k1\<close>, with no \<open>Bearer\<close> scheme, carries no key in any of the five carriers the claim
  names, and \<open>Authenticate\<close> accepts it all the same with \<open>k1\<close> as principal.
\<close>

theorem bearer_only_reading_counterexample:
  "Authenticate (Some (newProvider cfg_two_keys)) req_raw_authorization =
     Inr \<lparr> Provider = ''team'', Principal = ''k1'', Metadata = [(''source'', ''authorization'')] \<rparr> \<and>
   spec_carried_keys req_raw_authorization = []"
  by code_simp

lemma candidate_values:
  "map fst (candidates r) =
     [extractBearerToken (Values_Get (Header r) ''Authorization''),
      Values_Get (Header r) ''X-Goog-Api-Key'',
      Values_Get (Header r) ''X-Api-Key'',
      (case URL_Query r of None \<Rightarrow> '''' | Some q \<Rightarrow> Values_Get q ''key''),
      (case URL_Query r of None \<Rightarrow> '''' | Some q \<Rightarrow> Values_Get q ''auth_token'')]"
  by (simp add: candidates_def query_value_def)

lemma carrier_values:
  "carriers r =
     [Values_Get (Header r) ''Authorization'',
      Values_Get (Header r) ''X-Goog-Api-Key'',
      Values_Get (Header r) ''X-Api-Key'',
      (case URL_Query r of None \<Rightarrow> '''' | Some q \<Rightarrow> Values_Get q ''key''),
      (case URL_Query r of None \<Rightarrow> '''' | Some q \<Rightarrow> Values_Get q ''auth_token'')]"
  by (simp add: carriers_def query_value_def)

lemma Authenticate_ok_iff:
  "(\<exists>res. Authenticate (Some p) r = Inr res) \<longleftrightarrow>
   (\<exists>v \<in> set (map fst (candidates r)). v \<noteq> '''' \<and> v \<in> keys p)"
proof
  assume "\<exists>res. Authenticate (Some p) r = Inr res"
  then obtain v src where "first_match (keys p) (candidates r) = Some (v, src)"
    by (auto simp: Authenticate_Some split: if_splits option.splits)
  from first_match_Some [OF this] show "\<exists>v \<in> set (map fst (candidates r)). v \<noteq> '''' \<and> v \<in> keys p"
    by force
next
  assume "\<exists>v \<in> set (map fst (candidates r)). v \<noteq> '''' \<and> v \<in> keys p"
  then obtain v where v: "v \<in> fst ` set (candidates r)" "v \<noteq> ''''" "v \<in> keys p"
    by auto
  then have ne: "keys p \<noteq> {}" by auto
  have nc: "\<not> list_all (\<lambda>v. v = '''') (carriers r)"
    using candidates_empty_if_carriers_empty [of r] v by blast
  have "first_match (keys p) (candidates r) \<noteq> None"
    using v by (auto simp: first_match_None_iff)
  with ne nc show "\<exists>res. Authenticate (Some p) r = Inr res"
    by (auto simp: Authenticate_Some)
qed

lemma Authenticate_principal:
  assumes "Authenticate (Some p) r = Inr res"
  shows "Principal res \<noteq> '''' \<and> Principal res \<in> keys p \<and>
         Principal res \<in> set (map fst (candidates r))"
proof -
  from assms obtain v src where m: "first_match (keys p) (candidates r) = Some (v, src)"
    and "Principal res = v"
    by (auto simp: Authenticate_Some split: if_splits option.splits)
  with first_match_Some [OF m] show ?thesis
    by force
qed

text \<open>
  Claim C6, amended. A provider built from a configuration authenticates a request
  successfully if and only if one of the five candidate values is not empty and is one
  of the configured keys, where the candidate of the Authorization header is its bearer
  token, or the whole header value when the header is not of the form
  \<open>Bearer <token>\<close>; the other four are the X-Goog-Api-Key and X-Api-Key headers and the
  query parameters \<open>key\<close> and \<open>auth_token\<close>. The principal of a successful result is such
  a candidate.
\<close>

theorem Authenticate_ok_iff_candidate:
  "((\<exists>res. Authenticate (Some (newProvider cfg)) r = Inr res) \<longleftrightarrow>
      (\<exists>v \<in> set [extractBearerToken (Values_Get (Header r) ''Authorization''),
                  Values_Get (Header r) ''X-Goog-Api-Key'',
                  Values_Get (Header r) ''X-Api-Key'',
                  (case URL_Query r of None \<Rightarrow> '''' | Some q \<Rightarrow> Values_Get q ''key''),
                  (case URL_Query r of None \<Rightarrow> '''' | Some q \<Rightarrow> Values_Get q ''auth_token'')].
           v \<noteq> '''' \<and> v \<in> set (APIKeys cfg))) \<and>
   (\<forall>res. Authenticate (Some (newProvider cfg)) r = Inr res \<longrightarrow>
      Principal res \<noteq> '''' \<and> Principal res \<in> set (APIKeys cfg) \<and>
      Principal res \<in>
        set [extractBearerToken (Values_Get (Header r) ''Authorization''),
             Values_Get (Header r) ''X-Goog-Api-Key'',
             Values_Get (Header r) ''X-Api-Key'',
             (case URL_Query r of None \<Rightarrow> '''' | Some q \<Rightarrow> Values_Get q ''key''),
             (case URL_Query r of None \<Rightarrow> '''' | Some q \<Rightarrow> Values_Get q ''auth_token'')])"
proof -
  have k: "\<And>v. v \<noteq> '''' \<and> v \<in> keys (newProvider cfg) \<longleftrightarrow> v \<noteq> '''' \<and> v \<in> set (APIKeys cfg)"
    by (auto simp: keys_newProvider)
  have iff: "(\<exists>res. Authenticate (Some (newProvider cfg)) r = Inr res) \<longleftrightarrow>
             (\<exists>v \<in> set (map fst (candidates r)). v \<noteq> '''' \<and> v \<in> set (APIKeys cfg))"
    unfolding Authenticate_ok_iff using k by blast
  have pr: "\<forall>res. Authenticate (Some (newProvider cfg)) r = Inr res \<longrightarrow>
      Principal res \<noteq> '''' \<and> Principal res \<in> set (APIKeys cfg) \<and>
      Principal res \<in> set (map fst (candidates r))"
    using Authenticate_principal [of "newProvider cfg" r] k by blast
  from iff pr show ?thesis
    unfolding candidate_values by blast
qed

theorem Authenticate_ok_iff_candidate_witness:
  "(\<exists>res. Authenticate (Some (newProvider cfg_two_keys)) req_bearer_and_query = Inr res) \<and>
   Authenticate (Some (newProvider cfg_two_keys)) req_bearer_and_query =
     Inr \<lparr> Provider = ''team'', Principal = ''k2'', Metadata = [(''source'', ''query-key'')] \<rparr> \<and>
   (\<exists>res. Authenticate (Some (newProvider cfg_two_keys)) req_bearer_nbsp = Inr res) \<and>
   Authenticate (Some (newProvider cfg_two_keys)) req_bearer_nbsp =
     Inr \<lparr> Provider = ''team'', Principal = ''k1'', Metadata = [(''source'', ''authorization'')] \<rparr> \<and>
   (\<nexists>res. Authenticate (Some (newProvider cfg_two_keys)) (req_only_query ''token'' ''k1'') = Inr res)"
proof -
  note t = Authenticate_ok_iff_candidate
  have k: "set (APIKeys cfg_two_keys) = {''k1'', '''', ''k2''}"
    by (simp add: cfg_two_keys_def)
  have q: "(case URL_Query req_bearer_and_query of None \<Rightarrow> '''' | Some q \<Rightarrow> Values_Get q ''key'') = ''k2''"
    by (simp add: req_bearer_and_query_def Values_Get_def)
  have 1: "\<exists>res. Authenticate (Some (newProvider cfg_two_keys)) req_bearer_and_query = Inr res"
    using t [of cfg_two_keys req_bearer_and_query] q k by auto
  have b: "extractBearerToken (Values_Get (Header req_bearer_nbsp) ''Authorization'') = ''k1''"
    by code_simp
  have 2: "\<exists>res. Authenticate (Some (newProvider cfg_two_keys)) req_bearer_nbsp = Inr res"
    using t [of cfg_two_keys req_bearer_nbsp] b k by auto
  have c: "[extractBearerToken (Values_Get (Header (req_only_query ''token'' ''k1'')) ''Authorization''),
            Values_Get (Header (req_only_query ''token'' ''k1'')) ''X-Goog-Api-Key'',
            Values_Get (Header (req_only_query ''token'' ''k1'')) ''X-Api-Key'',
            (case URL_Query (req_only_query ''token'' ''k1'') of None \<Rightarrow> ''''
             | Some q \<Rightarrow> Values_Get q ''key''),
            (case URL_Query (req_only_query ''token'' ''k1'') of None \<Rightarrow> ''''
             | Some q \<Rightarrow> Values_Get q ''auth_token'')] = ['''', '''', '''', '''', '''']"
    by (simp add: req_only_query_def Values_Get_def extractBearerToken_empty)
  have 3: "\<nexists>res. Authenticate (Some (newProvider cfg_two_keys)) (req_only_query ''token'' ''k1'') = Inr res"
    using t [of cfg_two_keys "req_only_query ''token'' ''k1''"] unfolding c by simp
  have 4: "Authenticate (Some (newProvider cfg_two_keys)) req_bearer_and_query =
     Inr \<lparr> Provider = ''team'', Principal = ''k2'', Metadata = [(''source'', ''query-key'')] \<rparr>"
    by code_simp
  have 5: "Authenticate (Some (newProvider cfg_two_keys)) req_bearer_nbsp =
     Inr \<lparr> Provider = ''team'', Principal = ''k1'', Metadata = [(''source'', ''authorization'')] \<rparr>"
    by code_simp
  from 1 2 3 4 5 show ?thesis by simp
qed

text \<open>
  Claim C7. The three failures of \<open>Authenticate\<close> are told apart exactly. It returns
  \<open>ErrNotHandled\<close> when there is no provider or the provider has no key, whatever the
  request carries; \<open>ErrNoCredentials\<close> when the provider has a key and the request has
  none of the five carriers: the headers Authorization, X-Goog-Api-Key and X-Api-Key and
  the query parameters \<open>key\<close> and \<open>auth_token\<close>; \<open>ErrInvalidCredential\<close> when the provider
  has a key, one of the five carriers is present, and none of the five candidate values
  is a key of the provider. Every other request is authenticated.
\<close>

theorem Authenticate_outcomes:
  fixes p :: provider and r :: http_request
  defines "authorization \<equiv> Values_Get (Header r) ''Authorization''"
    and "goog \<equiv> Values_Get (Header r) ''X-Goog-Api-Key''"
    and "xapi \<equiv> Values_Get (Header r) ''X-Api-Key''"
    and "qkey \<equiv> (case URL_Query r of None \<Rightarrow> '''' | Some q \<Rightarrow> Values_Get q ''key'')"
    and "qtoken \<equiv> (case URL_Query r of None \<Rightarrow> '''' | Some q \<Rightarrow> Values_Get q ''auth_token'')"
  shows
  "Authenticate None r = Inl ErrNotHandled \<and>
   (Authenticate (Some p) r = Inl ErrNotHandled \<longleftrightarrow> keys p = {}) \<and>
   (Authenticate (Some p) r = Inl ErrNoCredentials \<longleftrightarrow>
      keys p \<noteq> {} \<and>
      authorization = '''' \<and> goog = '''' \<and> xapi = '''' \<and> qkey = '''' \<and> qtoken = '''') \<and>
   (Authenticate (Some p) r = Inl ErrInvalidCredential \<longleftrightarrow>
      keys p \<noteq> {} \<and>
      (authorization \<noteq> '''' \<or> goog \<noteq> '''' \<or> xapi \<noteq> '''' \<or> qkey \<noteq> '''' \<or> qtoken \<noteq> '''') \<and>
      (\<forall>v \<in> {extractBearerToken authorization, goog, xapi, qkey, qtoken}.
         v = '''' \<or> v \<notin> keys p)) \<and>
   ((\<exists>res. Authenticate (Some p) r = Inr res) \<longleftrightarrow>
      (\<exists>v \<in> {extractBearerToken authorization, goog, xapi, qkey, qtoken}.
         v \<noteq> '''' \<and> v \<in> keys p))"
proof -
  have c: "carriers r = [authorization, goog, xapi, qkey, qtoken]"
    unfolding authorization_def goog_def xapi_def qkey_def qtoken_def by (rule carrier_values)
  have d: "map fst (candidates r) = [extractBearerToken authorization, goog, xapi, qkey, qtoken]"
    unfolding authorization_def goog_def xapi_def qkey_def qtoken_def by (rule candidate_values)
  have cs: "list_all (\<lambda>v. v = '''') (carriers r) \<longleftrightarrow>
      authorization = '''' \<and> goog = '''' \<and> xapi = '''' \<and> qkey = '''' \<and> qtoken = ''''"
    unfolding c by simp
  have ds: "fst ` set (candidates r) = {extractBearerToken authorization, goog, xapi, qkey, qtoken}"
    using d by (metis list.set_map list.simps(15) empty_set)
  have nil: "Authenticate None r = Inl ErrNotHandled"
    by (simp add: Authenticate_def)
  have ok: "(\<exists>res. Authenticate (Some p) r = Inr res) \<longleftrightarrow>
      (\<exists>v \<in> {extractBearerToken authorization, goog, xapi, qkey, qtoken}. v \<noteq> '''' \<and> v \<in> keys p)"
    unfolding Authenticate_ok_iff set_map ds ..
  have errs: "(Authenticate (Some p) r = Inl ErrNotHandled \<longleftrightarrow> keys p = {}) \<and>
   (Authenticate (Some p) r = Inl ErrNoCredentials \<longleftrightarrow>
      keys p \<noteq> {} \<and> list_all (\<lambda>v. v = '''') (carriers r)) \<and>
   (Authenticate (Some p) r = Inl ErrInvalidCredential \<longleftrightarrow>
      keys p \<noteq> {} \<and> \<not> list_all (\<lambda>v. v = '''') (carriers r) \<and>
      (\<forall>v \<in> fst ` set (candidates r). v = '''' \<or> v \<notin> keys p))"
  proof (cases "keys p = {}")
    case True
    then show ?thesis by (simp add: Authenticate_Some)
  next
    case ne: False
    show ?thesis
    proof (cases "list_all (\<lambda>v. v = '''') (carriers r)")
      case True
      with ne show ?thesis by (simp add: Authenticate_Some)
    next
      case nc: False
      show ?thesis
      proof (cases "first_match (keys p) (candidates r)")
        case None
        then have "\<forall>v \<in> fst ` set (candidates r). v = '''' \<or> v \<notin> keys p"
          by (auto simp: first_match_None_iff)
        with ne nc None show ?thesis by (simp add: Authenticate_Some)
      next
        case (Some m)
        obtain v src where m: "m = (v, src)" by (cases m)
        from first_match_Some [of "keys p" "candidates r" v src] Some m
        have "\<not> (\<forall>v \<in> fst ` set (candidates r). v = '''' \<or> v \<notin> keys p)" by force
        with ne nc Some m show ?thesis by (simp add: Authenticate_Some)
      qed
    qed
  qed
  from nil ok errs show ?thesis
    unfolding cs ds by blast
qed

lemma req_only_header_values:
  "Values_Get (Header (req_only_header h v)) n = (if n = h then v else '''')"
  "URL_Query (req_only_header h v) = None"
  by (simp_all add: req_only_header_def Values_Get_def)

lemma req_only_query_values:
  "Values_Get (Header (req_only_query k v)) n = ''''"
  "(case URL_Query (req_only_query k v) of None \<Rightarrow> '''' | Some q \<Rightarrow> Values_Get q n) =
     (if n = k then v else '''')"
  by (simp_all add: req_only_query_def Values_Get_def)

theorem Authenticate_outcomes_witness:
  "Authenticate None (req_only_query ''key'' ''k1'') = Inl ErrNotHandled \<and>
   Authenticate (Some \<lparr> name = ''empty'', keys = {} \<rparr>) (req_only_query ''key'' ''k1'') =
     Inl ErrNotHandled \<and>
   Authenticate (Some (newProvider cfg_two_keys)) req_no_credentials = Inl ErrNoCredentials \<and>
   Authenticate (Some (newProvider cfg_two_keys)) (req_only_query ''token'' ''k1'') =
     Inl ErrNoCredentials \<and>
   Authenticate (Some (newProvider cfg_two_keys)) (req_only_header ''Authorization'' ''nope'') =
     Inl ErrInvalidCredential \<and>
   Authenticate (Some (newProvider cfg_two_keys)) (req_only_header ''Authorization'' ''Bearer nope'') =
     Inl ErrInvalidCredential \<and>
   Authenticate (Some (newProvider cfg_two_keys)) (req_only_header ''X-Goog-Api-Key'' ''nope'') =
     Inl ErrInvalidCredential \<and>
   Authenticate (Some (newProvider cfg_two_keys)) (req_only_header ''X-Api-Key'' ''nope'') =
     Inl ErrInvalidCredential \<and>
   Authenticate (Some (newProvider cfg_two_keys)) (req_only_query ''key'' ''nope'') =
     Inl ErrInvalidCredential \<and>
   Authenticate (Some (newProvider cfg_two_keys)) (req_only_query ''auth_token'' ''nope'') =
     Inl ErrInvalidCredential \<and>
   (\<exists>res. Authenticate (Some (newProvider cfg_two_keys)) (req_only_query ''auth_token'' ''k2'') =
      Inr res)"
proof -
  note t = Authenticate_outcomes
  let ?p = "newProvider cfg_two_keys"
  have k: "keys ?p = {''k1'', ''k2''}"
    by (auto simp: keys_newProvider cfg_two_keys_def)
  have e: "keys \<lparr> name = ''empty'', keys = {} \<rparr> = {}"
    by simp
  have n: "Values_Get (Header req_no_credentials) ''Authorization'' = ''''"
    "Values_Get (Header req_no_credentials) ''X-Goog-Api-Key'' = ''''"
    "Values_Get (Header req_no_credentials) ''X-Api-Key'' = ''''"
    "(case URL_Query req_no_credentials of None \<Rightarrow> '''' | Some q \<Rightarrow> Values_Get q ''key'') = ''''"
    "(case URL_Query req_no_credentials of None \<Rightarrow> '''' | Some q \<Rightarrow> Values_Get q ''auth_token'') = ''''"
    by (simp_all add: req_no_credentials_def Values_Get_def)
  have x: "extractBearerToken '''' = ''''" "extractBearerToken ''nope'' = ''nope''"
    "extractBearerToken ''Bearer nope'' = ''nope''"
    by code_simp+
  have 1: "Authenticate None (req_only_query ''key'' ''k1'') = Inl ErrNotHandled"
    using t [of "req_only_query ''key'' ''k1''" ?p] by simp
  have 2: "Authenticate (Some \<lparr> name = ''empty'', keys = {} \<rparr>) (req_only_query ''key'' ''k1'') =
     Inl ErrNotHandled"
    using t [of "req_only_query ''key'' ''k1''" "\<lparr> name = ''empty'', keys = {} \<rparr>"] e by simp
  have 3: "Authenticate (Some ?p) req_no_credentials = Inl ErrNoCredentials"
    using t [of req_no_credentials ?p] k n by simp
  have 4: "Authenticate (Some ?p) (req_only_query ''token'' ''k1'') = Inl ErrNoCredentials"
    using t [of "req_only_query ''token'' ''k1''" ?p] k
    by (simp add: req_only_query_values)
  have 5: "Authenticate (Some ?p) (req_only_header ''Authorization'' ''nope'') =
     Inl ErrInvalidCredential"
    using t [of "req_only_header ''Authorization'' ''nope''" ?p] k x
    by (simp add: req_only_header_values)
  have 6: "Authenticate (Some ?p) (req_only_header ''Authorization'' ''Bearer nope'') =
     Inl ErrInvalidCredential"
    using t [of "req_only_header ''Authorization'' ''Bearer nope''" ?p] k x
    by (simp add: req_only_header_values)
  have 7: "Authenticate (Some ?p) (req_only_header ''X-Goog-Api-Key'' ''nope'') =
     Inl ErrInvalidCredential"
    using t [of "req_only_header ''X-Goog-Api-Key'' ''nope''" ?p] k x
    by (simp add: req_only_header_values)
  have 8: "Authenticate (Some ?p) (req_only_header ''X-Api-Key'' ''nope'') =
     Inl ErrInvalidCredential"
    using t [of "req_only_header ''X-Api-Key'' ''nope''" ?p] k x
    by (simp add: req_only_header_values)
  have 9: "Authenticate (Some ?p) (req_only_query ''key'' ''nope'') = Inl ErrInvalidCredential"
    using t [of "req_only_query ''key'' ''nope''" ?p] k x
    by (simp add: req_only_query_values)
  have 10: "Authenticate (Some ?p) (req_only_query ''auth_token'' ''nope'') =
     Inl ErrInvalidCredential"
    using t [of "req_only_query ''auth_token'' ''nope''" ?p] k x
    by (simp add: req_only_query_values)
  have 11: "\<exists>res. Authenticate (Some ?p) (req_only_query ''auth_token'' ''k2'') = Inr res"
    using t [of "req_only_query ''auth_token'' ''k2''" ?p] k x
    by (simp add: req_only_query_values)
  from 1 2 3 4 5 6 7 8 9 10 11 show ?thesis
    by simp
qed

section \<open>Results on the reconciliation of access providers\<close>


lemma set_update_subset: "set (AList.update k v al) \<subseteq> insert (k, v) (set al)"
  by (induction al) auto





























lemma fold_existing_lookup:
  "map_of (fold (\<lambda>po m. case po of None \<Rightarrow> m
                          | Some provider \<Rightarrow> AList.update (ident provider) provider m) xs m0) k = Some p \<Longrightarrow>
   map_of m0 k = Some p \<or> (Some p \<in> set xs \<and> ident p = k)"
proof (induction xs arbitrary: m0)
  case Nil
  then show ?case by simp
next
  case (Cons po xs)
  show ?case
  proof (cases po)
    case None
    then show ?thesis using Cons.IH [of m0] Cons.prems by auto
  next
    case (Some q)
    with Cons.prems Cons.IH [of "AList.update (ident q) q m0"]
    have "map_of (AList.update (ident q) q m0) k = Some p \<or> (Some p \<in> set xs \<and> ident p = k)"
      by simp
    then show ?thesis using Some by (auto simp: update_conv' split: if_splits)
  qed
qed



lemma existing_map_Some:
  "map_of (existing_map ident existing) k = Some p \<Longrightarrow> Some p \<in> set existing \<and> ident p = k"
  using fold_existing_lookup [of ident existing "[]" k p] by (simp add: existing_map_def)

















section \<open>Results on the response rewriter\<close>

lemma Split_not_Nil: "Split sep s \<noteq> []"
  by (induction s) (auto split: list.splits)

lemma Split_no_sep: "piece \<in> set (Split sep s) \<Longrightarrow> sep \<notin> set piece"
proof (induction s arbitrary: piece)
  case Nil
  then show ?case by simp
next
  case (Cons c cs)
  show ?case
  proof (cases "c = sep")
    case True
    with Cons show ?thesis by auto
  next
    case False
    obtain p ps where sp: "Split sep cs = p # ps"
      using Split_not_Nil [of sep cs] by (cases "Split sep cs") auto
    with False Cons.prems have "piece = c # p \<or> piece \<in> set ps" by simp
    then show ?thesis
    proof
      assume "piece = c # p"
      moreover have "sep \<notin> set p" using Cons.IH [of p] sp by simp
      ultimately show ?thesis using False by simp
    next
      assume "piece \<in> set ps"
      then show ?thesis using Cons.IH [of piece] sp by simp
    qed
  qed
qed

lemma Join_Split: "Join sep (Split sep s) = s"
proof (induction s)
  case Nil
  then show ?case by simp
next
  case (Cons c cs)
  obtain p ps where sp: "Split sep cs = p # ps"
    using Split_not_Nil [of sep cs] by (cases "Split sep cs") auto
  show ?case
  proof (cases "c = sep")
    case True
    with Cons sp show ?thesis by simp
  next
    case False
    with Cons sp show ?thesis by (cases ps) auto
  qed
qed

lemma Split_piece: "sep \<notin> set piece \<Longrightarrow> Split sep piece = [piece]"
  by (induction piece) auto

lemma Split_append_sep:
  "sep \<notin> set piece \<Longrightarrow> Split sep (piece @ sep # rest) = piece # Split sep rest"
  by (induction piece) auto

lemma Split_Join:
  "pieces \<noteq> [] \<Longrightarrow> \<forall>piece \<in> set pieces. sep \<notin> set piece \<Longrightarrow>
   Split sep (Join sep pieces) = pieces"
proof (induction sep pieces rule: Join.induct)
  case (1 sep)
  then show ?case by simp
next
  case (2 sep piece)
  then show ?case by (simp add: Split_piece)
next
  case (3 sep piece v va)
  then show ?case by (simp add: Split_append_sep)
qed

lemma rewrite_path_same:
  assumes "lawful_json_lib l m" "p \<in> set modelFieldPaths"
  shows "GetBytes l (rewrite_path l m p data) p =
           (if GetBytes l data p \<noteq> None then Some (StringResult l m) else None)"
  using assms by (auto simp: rewrite_path_def lawful_json_lib_def)

lemma rewrite_path_other:
  assumes "lawful_json_lib l m" "p \<in> set modelFieldPaths" "q \<in> set modelFieldPaths" "p \<noteq> q"
  shows "GetBytes l (rewrite_path l m p data) q = GetBytes l data q"
proof (cases "GetBytes l data p = None")
  case True
  then show ?thesis by (simp add: rewrite_path_def)
next
  case False
  with assms have "GetBytes l (SetBytes l data p m) q = GetBytes l data q"
    unfolding lawful_json_lib_def by blast
  with False show ?thesis by (simp add: rewrite_path_def)
qed

lemma fold_rewrite_path:
  assumes "lawful_json_lib l m"
  shows "distinct ps \<Longrightarrow> set ps \<subseteq> set modelFieldPaths \<Longrightarrow> q \<in> set modelFieldPaths \<Longrightarrow>
         GetBytes l (fold (rewrite_path l m) ps data) q =
           (if q \<in> set ps \<and> GetBytes l data q \<noteq> None then Some (StringResult l m)
            else GetBytes l data q)"
proof (induction ps arbitrary: data)
  case Nil
  then show ?case by simp
next
  case (Cons p ps)
  from Cons.prems have p: "p \<in> set modelFieldPaths" and d: "distinct ps" "p \<notin> set ps"
    and s: "set ps \<subseteq> set modelFieldPaths" by auto
  have ih: "GetBytes l (fold (rewrite_path l m) ps (rewrite_path l m p data)) q =
           (if q \<in> set ps \<and> GetBytes l (rewrite_path l m p data) q \<noteq> None
            then Some (StringResult l m)
            else GetBytes l (rewrite_path l m p data) q)"
    by (rule Cons.IH [OF d(1) s Cons.prems(3)])
  show ?case
  proof (cases "q = p")
    case True
    with ih d(2) rewrite_path_same [OF assms p, of data] show ?thesis by simp
  next
    case False
    then have "p \<noteq> q" by simp
    from rewrite_path_other [OF assms p Cons.prems(3) this, of data] ih False
    show ?thesis by simp
  qed
qed

lemma distinct_modelFieldPaths: "distinct modelFieldPaths"
  by (simp add: modelFieldPaths_def)

lemma rewriteModelInResponse_path:
  assumes "lawful_json_lib l m" "m \<noteq> ''''" "p \<in> set modelFieldPaths"
  shows "GetBytes l (rewriteModelInResponse l m data) p =
           (if GetBytes l data p \<noteq> None then Some (StringResult l m) else None)"
proof -
  have "GetBytes l (fold (rewrite_path l m) modelFieldPaths data) p =
           (if p \<in> set modelFieldPaths \<and> GetBytes l data p \<noteq> None then Some (StringResult l m)
            else GetBytes l data p)"
    by (rule fold_rewrite_path [OF assms(1) distinct_modelFieldPaths subset_refl assms(3)])
  with assms(2,3) show ?thesis by (auto simp: rewriteModelInResponse_def)
qed

lemma rewriteStreamLine_data:
  assumes "jsonData \<noteq> []" "hd jsonData = CHR ''{''"
  shows "rewriteStreamLine l m (''data: '' @ jsonData) =
           ''data: '' @ rewriteModelInResponse l m jsonData"
  using assms by (simp add: rewriteStreamLine_def HasPrefix_def TrimPrefix_def)

lemma rewriteStreamLine_other:
  assumes "\<not> HasPrefix line ''data: {''"
  shows "rewriteStreamLine l m line = line"
proof (cases "HasPrefix line ''data: ''")
  case False
  then show ?thesis by (simp add: rewriteStreamLine_def)
next
  case True
  define jsonData where "jsonData = TrimPrefix line ''data: ''"
  have jd: "jsonData = drop (length ''data: '') line"
    using True by (simp only: jsonData_def TrimPrefix_def if_True)
  have line: "line = ''data: '' @ jsonData"
    using True append_take_drop_id [of "length ''data: ''" line]
    by (simp only: HasPrefix_def jd)
  have no: "\<not> (length jsonData > 0 \<and> hd jsonData = CHR ''{'')"
  proof
    assume "length jsonData > 0 \<and> hd jsonData = CHR ''{''"
    then obtain r where "jsonData = CHR ''{'' # r" by (cases jsonData) auto
    with line have "line = ''data: {'' @ r" by simp
    then have "take (length ''data: {'') line = ''data: {''" by simp
    then have "HasPrefix line ''data: {''" by (simp only: HasPrefix_def)
    with assms show False by simp
  qed
  show ?thesis
    unfolding rewriteStreamLine_def Let_def jsonData_def [symmetric]
    using True no by auto
qed

lemma rewriteStreamChunk_lines:
  assumes "m \<noteq> ''''" "lines \<noteq> []" "\<forall>ln \<in> set lines. CHR ''\<newline>'' \<notin> set ln"
  shows "rewriteStreamChunk l m (Join CHR ''\<newline>'' lines) =
           Join CHR ''\<newline>'' (map (rewriteStreamLine l m) lines)"
  using assms by (simp add: rewriteStreamChunk_def Split_Join)

lemma dec_member_enc_member:
  assumes "dquote \<notin> set k" "dquote \<notin> set v"
  shows "dec_member (enc_member (k, v)) = Some (k, v)"
proof -
  have nk: "\<forall>x \<in> set k. x \<noteq> dquote" using assms(1) by auto
  have t: "takeWhile (\<lambda>x. x \<noteq> dquote) (k @ dquote # CHR '':'' # dquote # v @ [dquote]) = k"
    using nk by (simp add: takeWhile_tail)
  have d: "dropWhile (\<lambda>x. x \<noteq> dquote) (k @ dquote # CHR '':'' # dquote # v @ [dquote]) =
             dquote # CHR '':'' # dquote # v @ [dquote]"
    using nk by (simp add: dropWhile_append2)
  show ?thesis
    using assms(2) by (simp add: dec_member_def enc_member_def t d)
qed

lemma enc_member_no_comma:
  assumes "plain k" "plain v"
  shows "CHR '','' \<notin> set (enc_member (k, v))"
  using assms by (auto simp: plain_def enc_member_def dquote_def)

lemma those_map_Some:
  assumes "\<forall>x \<in> set xs. f (g x) = Some x"
  shows "those (map f (map g xs)) = Some xs"
  using assms by (induction xs) auto

lemma Join_Nil_iff: "Join sep pieces = [] \<longleftrightarrow> pieces = [] \<or> pieces = [[]]"
proof (induction sep pieces rule: Join.induct)
  case (1 sep)
  then show ?case by simp
next
  case (2 sep piece)
  then show ?case by simp
next
  case (3 sep piece v va)
  then show ?case by simp
qed

lemma dec_object_enc_object:
  assumes "\<forall>kv \<in> set kvs. plain (fst kv) \<and> plain (snd kv)"
  shows "dec_object (enc_object kvs) = Some kvs"
proof (cases "kvs = []")
  case True
  then show ?thesis by (simp add: dec_object_def enc_object_def)
next
  case False
  let ?ms = "map enc_member kvs"
  have ne: "?ms \<noteq> []" using False by simp
  have nc: "\<forall>piece \<in> set ?ms. CHR '','' \<notin> set piece"
    using assms enc_member_no_comma by (metis (no_types, lifting) imageE list.set_map prod.collapse)
  have "enc_member kv \<noteq> []" for kv by (simp add: enc_member_def)
  then have "?ms \<noteq> [[]]" using False by (cases kvs) auto
  with ne have jn: "Join CHR '','' ?ms \<noteq> []" by (simp add: Join_Nil_iff)
  have sp: "Split CHR '','' (Join CHR '','' ?ms) = ?ms"
    by (rule Split_Join [OF ne nc])
  have "\<forall>kv \<in> set kvs. dec_member (enc_member kv) = Some kv"
  proof
    fix kv assume "kv \<in> set kvs"
    with assms have "dquote \<notin> set (fst kv)" "dquote \<notin> set (snd kv)" by (auto simp: plain_def)
    from dec_member_enc_member [OF this] show "dec_member (enc_member kv) = Some kv" by simp
  qed
  then have th: "those (map dec_member ?ms) = Some kvs" by (rule those_map_Some)
  show ?thesis
    using jn sp th by (simp add: dec_object_def enc_object_def)
qed

lemma those_map_Some_D:
  "those (map f ps) = Some ys \<Longrightarrow> y \<in> set ys \<Longrightarrow> \<exists>p \<in> set ps. f p = Some y"
proof (induction ps arbitrary: ys)
  case Nil
  then show ?case by simp
next
  case (Cons p ps)
  then show ?case by (auto split: option.splits)
qed

lemma dec_member_Some:
  assumes "dec_member s = Some (k, v)"
  shows "dquote \<notin> set k \<and> dquote \<notin> set v \<and> set k \<subseteq> set s \<and> set v \<subseteq> set s"
proof -
  from assms obtain r where s: "s = dquote # r"
    by (cases s) (auto simp: dec_member_def split: if_splits)
  let ?r1 = "dropWhile (\<lambda>x. x \<noteq> dquote) r"
  from assms s have k: "k = takeWhile (\<lambda>x. x \<noteq> dquote) r"
    and v: "v = butlast (drop 3 ?r1)" and nv: "dquote \<notin> set (butlast (drop 3 ?r1))"
    by (auto simp: dec_member_def Let_def split: if_splits)
  have "dquote \<notin> set k" unfolding k by (auto dest: set_takeWhileD)
  moreover have "set k \<subseteq> set s" unfolding k s by (auto dest: set_takeWhileD)
  moreover have "set v \<subseteq> set s" unfolding v s
    by (auto dest!: in_set_butlastD in_set_dropD set_dropWhileD)
  ultimately show ?thesis using nv v by simp
qed

lemma dec_object_plain:
  assumes "dec_object s = Some kvs" "kv \<in> set kvs"
  shows "plain (fst kv) \<and> plain (snd kv)"
proof -
  from assms obtain r where s: "s = CHR ''{'' # r" and r: "r \<noteq> []"
    by (cases s) (auto simp: dec_object_def split: if_splits)
  from assms have ne: "butlast r \<noteq> []"
    by (auto simp: dec_object_def s Let_def split: if_splits)
  with assms(1) have th: "those (map dec_member (Split CHR '','' (butlast r))) = Some kvs"
    by (auto simp: dec_object_def s Let_def split: if_splits)
  from those_map_Some_D [OF th assms(2)] obtain piece where
    p: "piece \<in> set (Split CHR '','' (butlast r))" and d: "dec_member piece = Some kv"
    by blast
  have nc: "CHR '','' \<notin> set piece" using p by (rule Split_no_sep)
  from d have "dec_member piece = Some (fst kv, snd kv)" by simp
  from dec_member_Some [OF this] nc show ?thesis by (auto simp: plain_def)
qed

lemma lawful_flat_lib:
  assumes "plain v"
  shows "lawful_json_lib flat_lib v"
proof -
  have upd: "dec_object (enc_object (AList.update p v kvs)) = Some (AList.update p v kvs)"
    if "dec_object data = Some kvs" "map_of kvs p \<noteq> None" for data kvs p
  proof (rule dec_object_enc_object, rule ballI)
    fix kv assume kv: "kv \<in> set (AList.update p v kvs)"
    from that(2) obtain w where "(p, w) \<in> set kvs" by (auto dest: map_of_SomeD)
    from dec_object_plain [OF that(1) this] have pp: "plain p" by simp
    from kv set_update_subset [of p v kvs] have "kv = (p, v) \<or> kv \<in> set kvs" by auto
    then show "plain (fst kv) \<and> plain (snd kv)"
    proof
      assume "kv = (p, v)"
      with pp assms show ?thesis by simp
    next
      assume "kv \<in> set kvs"
      then show ?thesis by (rule dec_object_plain [OF that(1)])
    qed
  qed
  have 1: "GetBytes flat_lib (SetBytes flat_lib data p v) p = Some (StringResult flat_lib v)"
    if "GetBytes flat_lib data p \<noteq> None" for data p
  proof -
    from that obtain kvs where d: "dec_object data = Some kvs" and m: "map_of kvs p \<noteq> None"
      by (auto simp: flat_lib_def split: option.splits)
    from upd [OF d m] d show ?thesis by (simp add: flat_lib_def update_conv')
  qed
  have 2: "GetBytes flat_lib (SetBytes flat_lib data p v) q = GetBytes flat_lib data q"
    if "GetBytes flat_lib data p \<noteq> None" "p \<noteq> q" for data p q
  proof -
    from that obtain kvs where d: "dec_object data = Some kvs" and m: "map_of kvs p \<noteq> None"
      by (auto simp: flat_lib_def split: option.splits)
    from upd [OF d m] d that(2) show ?thesis by (simp add: flat_lib_def update_conv')
  qed
  from 1 2 show ?thesis unfolding lawful_json_lib_def by blast
qed

lemma Write_streaming:
  "isStreaming rw \<Longrightarrow>
   Write l contentType data rw =
     rw\<lparr> written := written rw @ [rewriteStreamChunk l (originalModel rw) data] \<rparr>"
  by (simp add: Write_def)

lemma Flush_buffered:
  "\<not> isStreaming rw \<Longrightarrow> body rw \<noteq> [] \<Longrightarrow>
   Flush l rw =
     rw\<lparr> written := written rw @ [rewriteModelInResponse l (originalModel rw) (body rw)] \<rparr>"
  by (simp add: Flush_def)

text \<open>
  Claim C2. Let the two JSON modules be lawful for the requested model \<open>m\<close>, and \<open>m\<close> not
  empty. In the output of \<open>rewriteModelInResponse\<close>, each of the four paths \<open>model\<close>,
  \<open>modelVersion\<close>, \<open>response.modelVersion\<close>, \<open>message.model\<close> that exists in the input
  reads as the string \<open>m\<close>, and a path that does not exist in the input does not exist in
  the output. \<open>rewriteStreamChunk\<close> works line by line: the output is the lines of the
  chunk in order, joined by newlines again; a line \<open>data: \<close> followed by text that starts
  with an opening brace has that text rewritten by \<open>rewriteModelInResponse\<close>, and every
  other line is kept as it is.
\<close>

theorem model_paths_rewritten:
  assumes "lawful_json_lib l m" and "m \<noteq> ''''" and "p \<in> set modelFieldPaths"
  shows "(GetBytes l data p \<noteq> None \<longrightarrow>
            GetBytes l (rewriteModelInResponse l m data) p = Some (StringResult l m)) \<and>
         (GetBytes l data p = None \<longrightarrow>
            GetBytes l (rewriteModelInResponse l m data) p = None) \<and>
         (lines \<noteq> [] \<and> (\<forall>ln \<in> set lines. CHR ''\<newline>'' \<notin> set ln) \<longrightarrow>
            rewriteStreamChunk l m (Join CHR ''\<newline>'' lines) =
              Join CHR ''\<newline>'' (map (rewriteStreamLine l m) lines)) \<and>
         (jsonData \<noteq> [] \<and> hd jsonData = CHR ''{'' \<longrightarrow>
            rewriteStreamLine l m (''data: '' @ jsonData) =
              ''data: '' @ rewriteModelInResponse l m jsonData) \<and>
         (\<not> HasPrefix line ''data: {'' \<longrightarrow> rewriteStreamLine l m line = line)"
proof -
  have "GetBytes l (rewriteModelInResponse l m data) p =
           (if GetBytes l data p \<noteq> None then Some (StringResult l m) else None)"
    by (rule rewriteModelInResponse_path [OF assms])
  then have a: "GetBytes l data p \<noteq> None \<longrightarrow>
            GetBytes l (rewriteModelInResponse l m data) p = Some (StringResult l m)"
    and b: "GetBytes l data p = None \<longrightarrow>
            GetBytes l (rewriteModelInResponse l m data) p = None"
    by simp_all
  have c: "lines \<noteq> [] \<and> (\<forall>ln \<in> set lines. CHR ''\<newline>'' \<notin> set ln) \<longrightarrow>
            rewriteStreamChunk l m (Join CHR ''\<newline>'' lines) =
              Join CHR ''\<newline>'' (map (rewriteStreamLine l m) lines)"
    using rewriteStreamChunk_lines [OF assms(2), of lines l] by blast
  have d: "jsonData \<noteq> [] \<and> hd jsonData = CHR ''{'' \<longrightarrow>
            rewriteStreamLine l m (''data: '' @ jsonData) =
              ''data: '' @ rewriteModelInResponse l m jsonData"
    using rewriteStreamLine_data [of jsonData l m] by blast
  have e: "\<not> HasPrefix line ''data: {'' \<longrightarrow> rewriteStreamLine l m line = line"
    using rewriteStreamLine_other [of line l m] by blast
  from a b c d e show ?thesis by blast
qed

theorem model_paths_rewritten_witness:
  \<open>GetBytes flat_lib demo_body ''model'' = Some ''gemini-2.5-pro'' \<and>
   GetBytes flat_lib (rewriteModelInResponse flat_lib demo_model demo_body) ''model'' =
     Some ''gemini-2.5-pro(8192)'' \<and>
   GetBytes flat_lib demo_body ''message.model'' = None \<and>
   GetBytes flat_lib (rewriteModelInResponse flat_lib demo_model demo_body) ''message.model'' = None \<and>
   rewriteStreamChunk flat_lib demo_model
     ''data: {"model":"gemini-2.5-pro","id":"7"}\<newline>\<newline>data: [DONE]\<newline>'' =
     ''data: {"model":"gemini-2.5-pro(8192)","id":"7"}\<newline>\<newline>data: [DONE]\<newline>''\<close>
proof -
  have pl: "plain demo_model" by code_simp
  have law: "lawful_json_lib flat_lib demo_model" by (rule lawful_flat_lib [OF pl])
  have ne: "demo_model \<noteq> ''''" by (simp add: demo_model_def)
  have p1: "''model'' \<in> set modelFieldPaths" by (simp add: modelFieldPaths_def)
  have p2: "''message.model'' \<in> set modelFieldPaths" by (simp add: modelFieldPaths_def)
  have g1: "GetBytes flat_lib demo_body ''model'' = Some ''gemini-2.5-pro''" by code_simp
  have g2: "GetBytes flat_lib demo_body ''message.model'' = None" by code_simp
  have sr: "StringResult flat_lib demo_model = ''gemini-2.5-pro(8192)''"
    by (simp add: flat_lib_def demo_model_def)
  have ln: "demo_lines \<noteq> [] \<and> (\<forall>ln \<in> set demo_lines. CHR ''\<newline>'' \<notin> set ln)" by code_simp
  have jn: \<open>Join CHR ''\<newline>'' demo_lines =
     ''data: {"model":"gemini-2.5-pro","id":"7"}\<newline>\<newline>data: [DONE]\<newline>''\<close> by code_simp
  have out: \<open>Join CHR ''\<newline>'' (map (rewriteStreamLine flat_lib demo_model) demo_lines) =
     ''data: {"model":"gemini-2.5-pro(8192)","id":"7"}\<newline>\<newline>data: [DONE]\<newline>''\<close> by code_simp
  from model_paths_rewritten [OF law ne p1, of demo_body demo_lines] g1 sr ln
  have r1: "GetBytes flat_lib (rewriteModelInResponse flat_lib demo_model demo_body) ''model'' =
     Some ''gemini-2.5-pro(8192)''"
    and r3: "rewriteStreamChunk flat_lib demo_model (Join CHR ''\<newline>'' demo_lines) =
              Join CHR ''\<newline>'' (map (rewriteStreamLine flat_lib demo_model) demo_lines)"
    by simp_all
  from model_paths_rewritten [OF law ne p2, of demo_body] g2
  have r2: "GetBytes flat_lib (rewriteModelInResponse flat_lib demo_model demo_body) ''message.model'' = None"
    by simp
  from g1 g2 r1 r2 r3 show ?thesis unfolding jn out by simp
qed

section \<open>Results on the composite translator\<close>

lemma bytes_Clone_same: "bytes_Clone b = b"
  by (cases b) (simp_all add: bytes_Clone_def)

text \<open>
  Claim C9. For every model name, input and stream flag, and whatever the two translators
  are, the translation from OpenAI Responses to Antigravity is the translation to Gemini
  followed by the translation from Gemini to Antigravity, both with the same model name
  and stream flag.
\<close>

theorem ConvertOpenAIResponsesRequestToAntigravity_is_composition:
  "ConvertOpenAIResponsesRequestToAntigravity toGemini toAntigravity m j s =
     toAntigravity m (toGemini m j s) s"
  by (simp add: ConvertOpenAIResponsesRequestToAntigravity_def bytes_Clone_same)

section \<open>Results on budgets and effort levels\<close>

lemma ThinkingBudgetToEffort_passes_test:
  "list_all (\<lambda>(levels, b, want, ok). ThinkingBudgetToEffort levels b = (want, ok))
     TestThinkingBudgetToEffort_cases"
  by (simp add: TestThinkingBudgetToEffort_cases_def ThinkingBudgetToEffort_def gpt5_levels_def
      gpt52_levels_def budget_of_def level_budget_def)

lemma test_tables_are_level_tables: "level_table gpt5_levels \<and> level_table gpt52_levels"
  by (simp add: level_table_def gpt5_levels_def gpt52_levels_def budget_of_def level_budget_def)

lemma find_sorted_least:
  assumes "sorted_wrt (\<lambda>x y. f x < (f y :: int)) xs" and "find P xs = Some x"
  shows "P x \<and> x \<in> set xs \<and> (\<forall>y \<in> set xs. P y \<longrightarrow> f x \<le> f y)"
  using assms
proof (induction xs)
  case Nil
  then show ?case by simp
next
  case (Cons a xs)
  show ?case
  proof (cases "P a")
    case True
    with Cons.prems(2) have "x = a" by simp
    with True Cons.prems(1) show ?thesis by (auto intro: less_imp_le)
  next
    case False
    with Cons.prems have "find P xs = Some x" and "sorted_wrt (\<lambda>x y. f x < f y) xs"
      by simp_all
    from Cons.IH [OF this(2) this(1)] False show ?thesis by auto
  qed
qed

lemma sorted_last_greatest:
  assumes "sorted_wrt (\<lambda>x y. f x < (f y :: int)) xs" and "x \<in> set xs"
  shows "f x \<le> f (last xs)"
  using assms
proof (induction xs)
  case Nil
  then show ?case by simp
next
  case (Cons a xs)
  show ?case
  proof (cases "xs = []")
    case True
    with Cons.prems show ?thesis by simp
  next
    case False
    then have l: "last (a # xs) = last xs" and m: "last xs \<in> set xs"
      by simp_all
    show ?thesis
    proof (cases "x = a")
      case True
      with Cons.prems(1) m have "f x < f (last xs)" by simp
      with l show ?thesis by simp
    next
      case ne: False
      with Cons.prems have "x \<in> set xs" and "sorted_wrt (\<lambda>x y. f x < f y) xs"
        by simp_all
      from Cons.IH [OF this(2) this(1)] l show ?thesis by simp
    qed
  qed
qed

lemma level_names:
  assumes "level_budget l \<noteq> None"
  shows "l \<in> set [''auto'', ''none'', ''minimal'', ''low'', ''medium'', ''high'', ''xhigh'']"
proof -
  from assms obtain v where "level_budget l = Some v" by auto
  then have "(l, v) \<in> set [(''auto'', -1), (''none'', 0), (''minimal'', 512), (''low'', 1024),
      (''medium'', 8192), (''high'', 24576), (''xhigh'', 32768)]"
    unfolding level_budget_def by (rule map_of_SomeD)
  then have "fst (l, v) \<in> fst ` set [(''auto'', -1), (''none'', 0), (''minimal'', 512),
      (''low'', 1024), (''medium'', 8192), (''high'', 24576), (''xhigh'', 32768 :: int)]"
    by (rule imageI)
  then show ?thesis by simp
qed

lemma budget_of_names:
  "budget_of ''auto'' = -1" "budget_of ''none'' = 0" "budget_of ''minimal'' = 512"
  "budget_of ''low'' = 1024" "budget_of ''medium'' = 8192" "budget_of ''high'' = 24576"
  "budget_of ''xhigh'' = 32768"
  by (simp_all add: budget_of_def level_budget_def)

lemma level_of_budget:
  assumes "level_budget l \<noteq> None" and "l \<noteq> ''minimal''" and "0 < budget_of l"
  shows "(budget_of l \<le> 1024 \<longrightarrow> l = ''low'') \<and>
         (1024 < budget_of l \<and> budget_of l \<le> 8192 \<longrightarrow> l = ''medium'') \<and>
         (8192 < budget_of l \<and> budget_of l \<le> 24576 \<longrightarrow> l = ''high'') \<and>
         (24576 < budget_of l \<longrightarrow> l = ''xhigh'')"
proof -
  have "\<forall>l \<in> set [''auto'', ''none'', ''minimal'', ''low'', ''medium'', ''high'', ''xhigh''].
          l \<noteq> ''minimal'' \<longrightarrow> 0 < budget_of l \<longrightarrow>
          (budget_of l \<le> 1024 \<longrightarrow> l = ''low'') \<and>
          (1024 < budget_of l \<and> budget_of l \<le> 8192 \<longrightarrow> l = ''medium'') \<and>
          (8192 < budget_of l \<and> budget_of l \<le> 24576 \<longrightarrow> l = ''high'') \<and>
          (24576 < budget_of l \<longrightarrow> l = ''xhigh'')"
    by (simp add: budget_of_names)
  with level_names [OF assms(1)] assms(2,3) show ?thesis
    by blast
qed

lemma highest_budget_name:
  assumes "level_budget l \<noteq> None" and "32768 \<le> budget_of l"
  shows "l = ''xhigh''"
proof -
  have "\<forall>l \<in> set [''auto'', ''none'', ''minimal'', ''low'', ''medium'', ''high'', ''xhigh''].
          32768 \<le> budget_of l \<longrightarrow> l = ''xhigh''"
    by (simp add: budget_of_names)
  with level_names [OF assms(1)] assms(2) show ?thesis
    by blast
qed

lemma level_table_D:
  assumes "level_table levels"
  shows "levels \<noteq> []" and "\<forall>l \<in> set levels. level_budget l \<noteq> None"
    and "sorted_wrt (\<lambda>l l'. budget_of l < budget_of l') levels"
    and "''low'' \<in> set levels" "''medium'' \<in> set levels" "''high'' \<in> set levels"
  using assms by (auto simp: level_table_def list_all_iff)

lemma ThinkingBudgetToEffort_positive:
  assumes "levels \<noteq> []" and "0 < b"
  shows "ThinkingBudgetToEffort levels b =
     (case find (\<lambda>l. l \<noteq> ''minimal'' \<and> level_budget l \<noteq> None \<and> b \<le> budget_of l) levels of
        Some l \<Rightarrow> (l, True) | None \<Rightarrow> (last levels, True))"
  using assms by (simp add: ThinkingBudgetToEffort_def)

lemma ThinkingBudgetToEffort_least:
  assumes t: "level_table levels" and b: "0 < b"
    and q: "\<exists>x \<in> set levels. x \<noteq> ''minimal'' \<and> b \<le> budget_of x"
  shows "\<exists>l. ThinkingBudgetToEffort levels b = (l, True) \<and> l \<in> set levels \<and>
             l \<noteq> ''minimal'' \<and> b \<le> budget_of l \<and>
             (\<forall>x \<in> set levels. x \<noteq> ''minimal'' \<and> b \<le> budget_of x \<longrightarrow> budget_of l \<le> budget_of x)"
proof -
  let ?P = "\<lambda>l. l \<noteq> ''minimal'' \<and> level_budget l \<noteq> None \<and> b \<le> budget_of l"
  note d = level_table_D [OF t]
  from q d(2) have "\<exists>x \<in> set levels. ?P x" by blast
  then obtain l where f: "find ?P levels = Some l"
    by (cases "find ?P levels") (auto simp: find_None_iff)
  from find_sorted_least [OF d(3) f]
  have "?P l \<and> l \<in> set levels \<and> (\<forall>y \<in> set levels. ?P y \<longrightarrow> budget_of l \<le> budget_of y)" .
  moreover have "ThinkingBudgetToEffort levels b = (l, True)"
    using ThinkingBudgetToEffort_positive [OF d(1) b] f by simp
  ultimately show ?thesis using d(2) by blast
qed

lemma ThinkingBudgetToEffort_saturates:
  assumes t: "level_table levels" and b: "0 < b"
    and q: "\<not> (\<exists>x \<in> set levels. x \<noteq> ''minimal'' \<and> b \<le> budget_of x)"
  shows "ThinkingBudgetToEffort levels b = (last levels, True)"
proof -
  let ?P = "\<lambda>l. l \<noteq> ''minimal'' \<and> level_budget l \<noteq> None \<and> b \<le> budget_of l"
  note d = level_table_D [OF t]
  from q have "find ?P levels = None"
    by (auto simp: find_None_iff)
  with ThinkingBudgetToEffort_positive [OF d(1) b] show ?thesis by simp
qed


lemma ThinkingBudgetToEffort_comment_scale:
  assumes t: "level_table levels" and b: "0 < b"
  shows "ThinkingBudgetToEffort levels b = (comment_scale levels b, True)"
proof (cases "\<exists>x \<in> set levels. x \<noteq> ''minimal'' \<and> b \<le> budget_of x")
  case True
  note d = level_table_D [OF t]
  from ThinkingBudgetToEffort_least [OF t b True] obtain l where
    r: "ThinkingBudgetToEffort levels b = (l, True)" and l: "l \<in> set levels" "l \<noteq> ''minimal''"
    and bl: "b \<le> budget_of l"
    and least: "\<forall>x \<in> set levels. x \<noteq> ''minimal'' \<and> b \<le> budget_of x \<longrightarrow> budget_of l \<le> budget_of x"
    by blast
  from l(1) d(2) have lb: "level_budget l \<noteq> None" by blast
  from b bl have pos: "0 < budget_of l" by simp
  note n = level_of_budget [OF lb l(2) pos]
  have "l = comment_scale levels b"
  proof (cases "b \<le> 1024")
    case True
    with least d(4) have "budget_of l \<le> 1024" by (auto simp: budget_of_names)
    with n True show ?thesis by (simp add: comment_scale_def)
  next
    case b1: False
    show ?thesis
    proof (cases "b \<le> 8192")
      case True
      with least d(5) have "budget_of l \<le> 8192" by (auto simp: budget_of_names)
      with n b1 bl True show ?thesis by (simp add: comment_scale_def)
    next
      case b2: False
      show ?thesis
      proof (cases "b \<le> 24576")
        case True
        with least d(6) have "budget_of l \<le> 24576" by (auto simp: budget_of_names)
        with n b2 bl True show ?thesis by (simp add: comment_scale_def)
      next
        case b3: False
        with n bl have x: "l = ''xhigh''" by simp
        have "budget_of l \<le> budget_of (last levels)"
          using sorted_last_greatest [OF d(3) l(1)] .
        moreover have "last levels \<in> set levels" using d(1) by simp
        then have "level_budget (last levels) \<noteq> None" using d(2) by blast
        ultimately have "last levels = ''xhigh''"
          using highest_budget_name [of "last levels"] x by (simp add: budget_of_names)
        with x b1 b2 b3 show ?thesis by (simp add: comment_scale_def)
      qed
    qed
  qed
  with r show ?thesis by simp
next
  case False
  note d = level_table_D [OF t]
  from False d(4,5,6) have "24576 < b"
    by (auto simp: budget_of_names)
  with ThinkingBudgetToEffort_saturates [OF t b False] show ?thesis
    by (simp add: comment_scale_def)
qed




section \<open>Results on effort names\<close>

text \<open>
  Claim C3. With \<open>allowCompat\<close> and a model the registry does not know, the effort name
  reaches the upstream payload as it was given, whatever it is. Without \<open>allowCompat\<close>
  and for a model with a level table, an effort name that is not in the table, read in
  lower case, fails with \<open>thinking_invalid\<close>, and one that is in the table is emitted in
  lower case.
\<close>

theorem effort_passthrough_or_validated:
  "project_effort True None effort = Inr (Some effort) \<and>
   (ToLower effort \<notin> set levels \<longrightarrow>
      project_effort False (Some (ThinkingLevels levels)) effort = Inl thinking_invalid) \<and>
   (ToLower effort \<in> set levels \<longrightarrow>
      project_effort False (Some (ThinkingLevels levels)) effort = Inr (Some (ToLower effort)))"
  by (simp add: project_effort_def)

theorem effort_passthrough_or_validated_witness:
  "project_effort True None ''Ultra'' = Inr (Some ''Ultra'') \<and>
   project_effort False (Some (ThinkingLevels gpt5_levels)) ''xhigh'' = Inl thinking_invalid \<and>
   project_effort False (Some (ThinkingLevels gpt5_levels)) ''High'' = Inr (Some ''high'')"
proof -
  have x: "ToLower ''xhigh'' \<notin> set gpt5_levels"
    by code_simp
  have l: "ToLower ''High'' = ''high''"
    by code_simp
  have h: "ToLower ''High'' \<in> set gpt5_levels"
    unfolding l by (simp add: gpt5_levels_def)
  from effort_passthrough_or_validated [of "''Ultra''" gpt5_levels]
  have 1: "project_effort True None ''Ultra'' = Inr (Some ''Ultra'')"
    by simp
  from effort_passthrough_or_validated [of "''xhigh''" gpt5_levels] x
  have 2: "project_effort False (Some (ThinkingLevels gpt5_levels)) ''xhigh'' = Inl thinking_invalid"
    by simp
  from effort_passthrough_or_validated [of "''High''" gpt5_levels] h l
  have 3: "project_effort False (Some (ThinkingLevels gpt5_levels)) ''High'' = Inr (Some ''high'')"
    by simp
  from 1 2 3 show ?thesis by simp
qed

section \<open>Results on the Gemini 3 levels\<close>

lemma HasPrefix_append: "HasPrefix s (p @ q) \<Longrightarrow> HasPrefix s p"
proof -
  assume "HasPrefix s (p @ q)"
  then have e: "take (length p + length q) s = p @ q"
    by (simp add: HasPrefix_def)
  have "take (length p) (take (length p + length q) s) = take (length p) s"
    by simp
  with e show ?thesis
    by (simp add: HasPrefix_def)
qed

lemma Gemini3Pro_is_Gemini3: "IsGemini3ProModel m \<Longrightarrow> IsGemini3Model m"
  unfolding IsGemini3ProModel_def IsGemini3Model_def
  using HasPrefix_append [of "gemini3_name m" "''gemini-3-''" "''pro''"] by simp

lemma Gemini3Flash_is_Gemini3: "IsGemini3FlashModel m \<Longrightarrow> IsGemini3Model m"
  unfolding IsGemini3FlashModel_def IsGemini3Model_def
  using HasPrefix_append [of "gemini3_name m" "''gemini-3-''" "''flash''"] by simp

lemma HasPrefix_nth: "HasPrefix s p \<Longrightarrow> i < length p \<Longrightarrow> s ! i = p ! i"
proof -
  assume h: "HasPrefix s p" and i: "i < length p"
  from h have e: "take (length p) s = p"
    by (simp add: HasPrefix_def)
  from i have "take (length p) s ! i = s ! i"
    by simp
  with e show ?thesis
    by simp
qed

lemma Gemini3Pro_not_Flash: "IsGemini3ProModel m \<Longrightarrow> \<not> IsGemini3FlashModel m"
proof
  assume p: "IsGemini3ProModel m" and f: "IsGemini3FlashModel m"
  from p have "gemini3_name m ! 9 = ''gemini-3-pro'' ! 9"
    unfolding IsGemini3ProModel_def by (rule HasPrefix_nth) simp
  moreover from f have "gemini3_name m ! 9 = ''gemini-3-flash'' ! 9"
    unfolding IsGemini3FlashModel_def by (rule HasPrefix_nth) simp
  moreover have "''gemini-3-pro'' ! 9 \<noteq> ''gemini-3-flash'' ! 9"
    by code_simp
  ultimately show False by simp
qed

lemma family_predicates_pass_tests:
  "list_all (\<lambda>(m, e). IsGemini3Model m = e) TestIsGemini3Model_cases \<and>
   list_all (\<lambda>(m, e). IsGemini3ProModel m = e) TestIsGemini3ProModel_cases \<and>
   list_all (\<lambda>(m, e). IsGemini3FlashModel m = e) TestIsGemini3FlashModel_cases"
  by code_simp

lemma ValidateGemini3ThinkingLevel_passes_test:
  "list_all (\<lambda>(m, l, ok, v). ValidateGemini3ThinkingLevel m l = (v, ok))
     TestValidateGemini3ThinkingLevel_cases"
  by code_simp

lemma ThinkingBudgetToGemini3Level_passes_test:
  "list_all (\<lambda>(m, b, ok, v). ThinkingBudgetToGemini3Level m b = (v, ok))
     TestThinkingBudgetToGemini3Level_cases"
  by code_simp

lemma NormalizeGeminiThinkingBudget_passes_test:
  "list_all (\<lambda>(m, b, l, wb).
       normalize_row_passes (NormalizeGeminiThinkingBudget nb m (budget_body b)) l wb)
     TestNormalizeGeminiThinkingBudget_cases"
proof -
  have f: "IsGemini3Model ''gemini-3-flash-preview''" "IsGemini3FlashModel ''gemini-3-flash-preview''"
    "\<not> IsGemini3ProModel ''gemini-3-flash-preview''"
    by code_simp+
  have p: "IsGemini3Model ''gemini-3-pro-preview''" "IsGemini3ProModel ''gemini-3-pro-preview''"
    by code_simp+
  have g: "\<not> IsGemini3Model ''gemini-2.5-pro''"
    by code_simp
  show ?thesis
    by (simp add: TestNormalizeGeminiThinkingBudget_cases_def normalize_row_passes_def
        NormalizeGeminiThinkingBudget_def ThinkingBudgetToGemini3Level_def budget_body_def f p g)
qed

lemma ThinkingBudgetToGemini3Level_Pro:
  "IsGemini3ProModel m \<Longrightarrow>
   ThinkingBudgetToGemini3Level m b = (''low'', True) \<or>
   ThinkingBudgetToGemini3Level m b = (''high'', True)"
  by (simp add: ThinkingBudgetToGemini3Level_def)

lemma ThinkingBudgetToGemini3Level_Flash:
  "IsGemini3FlashModel m \<Longrightarrow>
   fst (ThinkingBudgetToGemini3Level m b) \<in> set Gemini3FlashThinkingLevels \<and>
   snd (ThinkingBudgetToGemini3Level m b)"
  using Gemini3Pro_not_Flash [of m]
  by (auto simp add: ThinkingBudgetToGemini3Level_def Gemini3FlashThinkingLevels_def)

lemma NormalizeGeminiThinkingBudget_Gemini3:
  assumes "IsGemini3ProModel m \<or> IsGemini3FlashModel m" and "thinkingBudget cfg = Some b"
  shows "NormalizeGeminiThinkingBudget nb m cfg =
     cfg \<lparr> thinkingLevel := Some (fst (ThinkingBudgetToGemini3Level m b)), thinkingBudget := None \<rparr>"
proof -
  from assms(1) have g: "IsGemini3Model m"
    using Gemini3Pro_is_Gemini3 Gemini3Flash_is_Gemini3 by blast
  from assms(1) have "snd (ThinkingBudgetToGemini3Level m b)"
    using ThinkingBudgetToGemini3Level_Pro [of m b] ThinkingBudgetToGemini3Level_Flash [of m b]
    by auto
  then obtain l where l: "ThinkingBudgetToGemini3Level m b = (l, True)"
    by (cases "ThinkingBudgetToGemini3Level m b") auto
  show ?thesis
    by (simp add: NormalizeGeminiThinkingBudget_def assms(2) g l)
qed

text \<open>
  Claim C4. Gemini 3 Pro accepts exactly the levels \<open>low\<close> and \<open>high\<close>, Gemini 3 Flash
  exactly \<open>minimal\<close>, \<open>low\<close>, \<open>medium\<close> and \<open>high\<close>, in any letter case. A numeric budget
  becomes one of the levels of the family. Normalising the body of a request for a model
  of either family removes \<open>thinkingBudget\<close> and writes that level to \<open>thinkingLevel\<close>; for a
  model outside Gemini 3 the numeric \<open>thinkingBudget\<close> stays and \<open>thinkingLevel\<close> is not
  touched.
\<close>

theorem Gemini3_thinkingLevel:
  "(IsGemini3ProModel m \<longrightarrow>
      (snd (ValidateGemini3ThinkingLevel m level) \<longleftrightarrow> ToLower level \<in> {''low'', ''high''}) \<and>
      fst (ThinkingBudgetToGemini3Level m b) \<in> {''low'', ''high''} \<and>
      snd (ThinkingBudgetToGemini3Level m b)) \<and>
   (IsGemini3FlashModel m \<longrightarrow>
      (snd (ValidateGemini3ThinkingLevel m level) \<longleftrightarrow>
         ToLower level \<in> {''minimal'', ''low'', ''medium'', ''high''}) \<and>
      fst (ThinkingBudgetToGemini3Level m b) \<in> {''minimal'', ''low'', ''medium'', ''high''} \<and>
      snd (ThinkingBudgetToGemini3Level m b)) \<and>
   (snd (ValidateGemini3ThinkingLevel m level) \<longrightarrow>
      fst (ValidateGemini3ThinkingLevel m level) = ToLower level) \<and>
   ((IsGemini3ProModel m \<or> IsGemini3FlashModel m) \<and> thinkingBudget cfg = Some b \<longrightarrow>
      thinkingBudget (NormalizeGeminiThinkingBudget nb m cfg) = None \<and>
      thinkingLevel (NormalizeGeminiThinkingBudget nb m cfg) =
        Some (fst (ThinkingBudgetToGemini3Level m b))) \<and>
   (\<not> IsGemini3Model m \<and> thinkingBudget cfg = Some b \<longrightarrow>
      thinkingBudget (NormalizeGeminiThinkingBudget nb m cfg) = Some (nb m b) \<and>
      thinkingLevel (NormalizeGeminiThinkingBudget nb m cfg) = thinkingLevel cfg)"
proof -
  have pro: "IsGemini3ProModel m \<longrightarrow>
      (snd (ValidateGemini3ThinkingLevel m level) \<longleftrightarrow> ToLower level \<in> {''low'', ''high''}) \<and>
      fst (ThinkingBudgetToGemini3Level m b) \<in> {''low'', ''high''} \<and>
      snd (ThinkingBudgetToGemini3Level m b)"
    using ThinkingBudgetToGemini3Level_Pro [of m b]
    by (auto simp add: ValidateGemini3ThinkingLevel_def Gemini3ProThinkingLevels_def Let_def)
  have flash: "IsGemini3FlashModel m \<longrightarrow>
      (snd (ValidateGemini3ThinkingLevel m level) \<longleftrightarrow>
         ToLower level \<in> {''minimal'', ''low'', ''medium'', ''high''}) \<and>
      fst (ThinkingBudgetToGemini3Level m b) \<in> {''minimal'', ''low'', ''medium'', ''high''} \<and>
      snd (ThinkingBudgetToGemini3Level m b)"
    using ThinkingBudgetToGemini3Level_Flash [of m b] Gemini3Pro_not_Flash [of m]
    by (auto simp add: ValidateGemini3ThinkingLevel_def Gemini3FlashThinkingLevels_def Let_def)
  have lower: "snd (ValidateGemini3ThinkingLevel m level) \<longrightarrow>
      fst (ValidateGemini3ThinkingLevel m level) = ToLower level"
    by (simp add: ValidateGemini3ThinkingLevel_def Let_def)
  have g3: "(IsGemini3ProModel m \<or> IsGemini3FlashModel m) \<and> thinkingBudget cfg = Some b \<longrightarrow>
      thinkingBudget (NormalizeGeminiThinkingBudget nb m cfg) = None \<and>
      thinkingLevel (NormalizeGeminiThinkingBudget nb m cfg) =
        Some (fst (ThinkingBudgetToGemini3Level m b))"
    using NormalizeGeminiThinkingBudget_Gemini3 [of m cfg b nb] by auto
  have other: "\<not> IsGemini3Model m \<and> thinkingBudget cfg = Some b \<longrightarrow>
      thinkingBudget (NormalizeGeminiThinkingBudget nb m cfg) = Some (nb m b) \<and>
      thinkingLevel (NormalizeGeminiThinkingBudget nb m cfg) = thinkingLevel cfg"
    by (simp add: NormalizeGeminiThinkingBudget_def)
  from pro flash lower g3 other show ?thesis
    by blast
qed

theorem Gemini3_thinkingLevel_witness:
  "ValidateGemini3ThinkingLevel ''gemini-3-pro-preview'' ''HIGH'' = (''high'', True) \<and>
   \<not> snd (ValidateGemini3ThinkingLevel ''gemini-3-pro-preview'' ''medium'') \<and>
   snd (ValidateGemini3ThinkingLevel ''gemini-3-flash-preview'' ''medium'') \<and>
   thinkingBudget (NormalizeGeminiThinkingBudget (\<lambda>m b. b) ''gemini-3-flash-preview''
     (budget_body 8000)) = None \<and>
   thinkingLevel (NormalizeGeminiThinkingBudget (\<lambda>m b. b) ''gemini-3-flash-preview''
     (budget_body 8000)) = Some ''medium'' \<and>
   thinkingBudget (NormalizeGeminiThinkingBudget (\<lambda>m b. b) ''gemini-2.5-pro''
     (budget_body 8000)) = Some 8000 \<and>
   thinkingLevel (NormalizeGeminiThinkingBudget (\<lambda>m b. b) ''gemini-2.5-pro''
     (budget_body 8000)) = None"
proof -
  have p: "IsGemini3ProModel ''gemini-3-pro-preview''"
    by code_simp
  have f: "IsGemini3FlashModel ''gemini-3-flash-preview''"
    by code_simp
  have g: "\<not> IsGemini3Model ''gemini-2.5-pro''"
    by code_simp
  have l: "ToLower ''HIGH'' = ''high''" "ToLower ''medium'' = ''medium''"
    by code_simp+
  have v: "fst (ThinkingBudgetToGemini3Level ''gemini-3-flash-preview'' 8000) = ''medium''"
    by code_simp
  have b: "thinkingBudget (budget_body 8000) = Some 8000" "thinkingLevel (budget_body 8000) = None"
    by (simp_all add: budget_body_def)
  note t = Gemini3_thinkingLevel
  from t [of "''gemini-3-pro-preview''" "''HIGH''"] p l
  have 1: "ValidateGemini3ThinkingLevel ''gemini-3-pro-preview'' ''HIGH'' = (''high'', True)"
    by (cases "ValidateGemini3ThinkingLevel ''gemini-3-pro-preview'' ''HIGH''") simp
  from t [of "''gemini-3-pro-preview''" "''medium''"] p l
  have 2: "\<not> snd (ValidateGemini3ThinkingLevel ''gemini-3-pro-preview'' ''medium'')"
    by simp
  from t [of "''gemini-3-flash-preview''" "''medium''"] f l
  have 3: "snd (ValidateGemini3ThinkingLevel ''gemini-3-flash-preview'' ''medium'')"
    by simp
  from t [of "''gemini-3-flash-preview''" _ 8000 "budget_body 8000" "\<lambda>m b. b"] f b v
  have 4: "thinkingBudget (NormalizeGeminiThinkingBudget (\<lambda>m b. b) ''gemini-3-flash-preview''
       (budget_body 8000)) = None \<and>
     thinkingLevel (NormalizeGeminiThinkingBudget (\<lambda>m b. b) ''gemini-3-flash-preview''
       (budget_body 8000)) = Some ''medium''"
    by simp
  from t [of "''gemini-2.5-pro''" _ 8000 "budget_body 8000" "\<lambda>m b. b"] g b
  have 5: "thinkingBudget (NormalizeGeminiThinkingBudget (\<lambda>m b. b) ''gemini-2.5-pro''
       (budget_body 8000)) = Some 8000 \<and>
     thinkingLevel (NormalizeGeminiThinkingBudget (\<lambda>m b. b) ''gemini-2.5-pro''
       (budget_body 8000)) = None"
    by simp
  from 1 2 3 4 5 show ?thesis
    by simp
qed

end
